theory Spec2Isabelle
  imports Complex_Main
begin

section \<open>Python values used by upscale\_to\_4k.py\<close>

text \<open>
  Exceptions are values.  Only \<open>RuntimeError\<close> is ever caught by name in the program
  (in \<open>main\<close>); \<open>ValueError\<close> is caught around the two number parsers of the progress loop.
\<close>

datatype exn =
    RuntimeError string
  | FileNotFoundError string
  | ValueError
  | OverflowError
  | ZeroDivisionError
  | KeyError
  | IndexError
  | TypeError
  | AttributeError
  | JSONDecodeError
  | CalledProcessError

text \<open>
  A Python \<open>float\<close>: a finite value, the two infinities, or NaN.  Finite values are
  idealised as exact rationals: rounding of finite arithmetic and overflow of finite
  results to infinity are not modelled, and the two signed zeros are identified.  The
  special values follow IEEE 754 as Python exposes it: every ordered comparison with NaN
  is false, and float division by zero raises \<open>ZeroDivisionError\<close>.
\<close>

datatype pyfloat = Fin rat | PInf | NInf | NaN

fun f_lt :: "pyfloat \<Rightarrow> pyfloat \<Rightarrow> bool" where
  "f_lt NaN _ = False"
| "f_lt _ NaN = False"
| "f_lt (Fin a) (Fin b) = (a < b)"
| "f_lt (Fin a) PInf = True"
| "f_lt (Fin a) NInf = False"
| "f_lt PInf _ = False"
| "f_lt NInf NInf = False"
| "f_lt NInf _ = True"

definition f_gt :: "pyfloat \<Rightarrow> pyfloat \<Rightarrow> bool" where
  "f_gt a b = f_lt b a"

fun f_eq :: "pyfloat \<Rightarrow> pyfloat \<Rightarrow> bool" where
  "f_eq NaN _ = False"
| "f_eq _ NaN = False"
| "f_eq a b = (a = b)"

definition f_ge :: "pyfloat \<Rightarrow> pyfloat \<Rightarrow> bool" where
  "f_ge a b = (f_gt a b \<or> f_eq a b)"

text \<open>Truth value of a float: \<open>bool(x)\<close> is \<open>x != 0\<close>, so NaN and the infinities are true.\<close>

fun truthy :: "pyfloat \<Rightarrow> bool" where
  "truthy (Fin a) = (a \<noteq> 0)"
| "truthy _ = True"

fun f_neg :: "pyfloat \<Rightarrow> pyfloat" where
  "f_neg (Fin a) = Fin (- a)"
| "f_neg PInf = NInf"
| "f_neg NInf = PInf"
| "f_neg NaN = NaN"

fun f_add :: "pyfloat \<Rightarrow> pyfloat \<Rightarrow> pyfloat" where
  "f_add NaN _ = NaN"
| "f_add _ NaN = NaN"
| "f_add (Fin a) (Fin b) = Fin (a + b)"
| "f_add (Fin a) b = b"
| "f_add PInf NInf = NaN"
| "f_add NInf PInf = NaN"
| "f_add a _ = a"

definition f_sub :: "pyfloat \<Rightarrow> pyfloat \<Rightarrow> pyfloat" where
  "f_sub a b = f_add a (f_neg b)"

fun f_mul :: "pyfloat \<Rightarrow> pyfloat \<Rightarrow> pyfloat" where
  "f_mul NaN _ = NaN"
| "f_mul _ NaN = NaN"
| "f_mul (Fin a) (Fin b) = Fin (a * b)"
| "f_mul (Fin a) b = (if a = 0 then NaN else if 0 < a then b else f_neg b)"
| "f_mul a (Fin b) = (if b = 0 then NaN else if 0 < b then a else f_neg a)"
| "f_mul a b = (if a = b then PInf else NInf)"

fun f_div :: "pyfloat \<Rightarrow> pyfloat \<Rightarrow> exn + pyfloat" where
  "f_div a (Fin b) =
     (if b = 0 then Inl ZeroDivisionError
      else case a of
             Fin x \<Rightarrow> Inr (Fin (x / b))
           | NaN \<Rightarrow> Inr NaN
           | _ \<Rightarrow> Inr (if 0 < b then a else f_neg a))"
| "f_div _ NaN = Inr NaN"
| "f_div (Fin a) _ = Inr (Fin 0)"
| "f_div _ _ = Inr NaN"

text \<open>
  The builtins \<open>min(a, b)\<close> and \<open>max(a, b)\<close> keep the first argument unless the second
  compares strictly smaller (larger), so a NaN in second place is never selected.
\<close>

definition py_min :: "pyfloat \<Rightarrow> pyfloat \<Rightarrow> pyfloat" where
  "py_min a b = (if f_lt b a then b else a)"

definition py_max :: "pyfloat \<Rightarrow> pyfloat \<Rightarrow> pyfloat" where
  "py_max a b = (if f_gt b a then b else a)"

text \<open>
  An integer that meets a float in arithmetic, or is passed to \<open>float\<close>, is converted
  first.  Integers are unbounded; the conversion raises \<open>OverflowError\<close> from
  \<open>2 ^ 1024 - 2 ^ 970\<close> on, the first magnitude that no longer rounds to a finite double.
\<close>

definition float_overflows :: "int \<Rightarrow> bool" where
  "float_overflows n = (2 ^ 1024 - 2 ^ 970 \<le> \<bar>n\<bar>)"

definition int_to_float :: "int \<Rightarrow> exn + pyfloat" where
  "int_to_float n = (if float_overflows n then Inl OverflowError else Inr (Fin (of_int n)))"

text \<open>\<open>int(x)\<close> of a float truncates toward zero and raises on NaN and on the infinities.\<close>

fun int_of_float :: "pyfloat \<Rightarrow> exn + int" where
  "int_of_float (Fin a) = Inr (if 0 \<le> a then \<lfloor>a\<rfloor> else \<lceil>a\<rceil>)"
| "int_of_float NaN = Inl ValueError"
| "int_of_float _ = Inl OverflowError"

subsection \<open>Strings\<close>

fun nat_digits :: "nat \<Rightarrow> string" where
  "nat_digits n =
     (if n < 10 then [''0123456789'' ! n]
      else nat_digits (n div 10) @ [''0123456789'' ! (n mod 10)])"

declare nat_digits.simps [simp del]

text \<open>\<open>str(n)\<close> for an integer.\<close>

definition str_int :: "int \<Rightarrow> string" where
  "str_int n = (if n < 0 then CHR ''-'' # nat_digits (nat (- n)) else nat_digits (nat n))"

text \<open>The format specification \<open>02d\<close>: sign-aware zero padding to a minimum width of two.\<close>

definition fmt_02d :: "int \<Rightarrow> string" where
  "fmt_02d n =
     (if n < 0 then CHR ''-'' # nat_digits (nat (- n))
      else if n < 10 then CHR ''0'' # nat_digits (nat n)
      else nat_digits (nat n))"

text \<open>\<open>sep.join(xs)\<close>.\<close>

fun join :: "string \<Rightarrow> string list \<Rightarrow> string" where
  "join sep [] = []"
| "join sep [x] = x"
| "join sep (x # y # ys) = x @ sep @ join sep (y # ys)"

text \<open>\<open>needle in hay\<close> for two strings: \<open>needle\<close> occurs as a contiguous run.\<close>

fun starts_with :: "string \<Rightarrow> string \<Rightarrow> bool" where
  "starts_with [] _ = True"
| "starts_with (x # xs) [] = False"
| "starts_with (x # xs) (y # ys) = (x = y \<and> starts_with xs ys)"

fun str_contains :: "string \<Rightarrow> string \<Rightarrow> bool" where
  "str_contains needle [] = (needle = [])"
| "str_contains needle (y # ys) = (starts_with needle (y # ys) \<or> str_contains needle ys)"

section \<open>Configuration constants\<close>

definition MODE :: string where
  "MODE = ''intel_qsv''"

definition CPU_CRF :: int where
  "CPU_CRF = 16"

definition CPU_PRESET :: string where
  "CPU_PRESET = ''slow''"

definition CPU_10BIT :: bool where
  "CPU_10BIT = True"

definition QSV_GLOBAL_QUALITY :: int where
  "QSV_GLOBAL_QUALITY = 20"

definition SKIP_IF_4K_OR_HIGHER :: bool where
  "SKIP_IF_4K_OR_HIGHER = True"

definition PRINT_EVERY_SECONDS :: rat where
  "PRINT_EVERY_SECONDS = 2"

definition ETA_AVG_WINDOW_SECONDS :: rat where
  "ETA_AVG_WINDOW_SECONDS = 60"

section \<open>Utilities\<close>

definition placeholder :: string where
  "placeholder = ''??:??:??''"

definition fmt_hms :: "pyfloat option \<Rightarrow> exn + string" where
  "fmt_hms seconds =
     (case seconds of
        None \<Rightarrow> Inr placeholder
      | Some x \<Rightarrow>
          if f_lt x (Fin 0) \<or> f_eq x PInf then Inr placeholder
          else (case int_of_float (f_add x (Fin (1 / 2))) of
                  Inl e \<Rightarrow> Inl e
                | Inr s \<Rightarrow>
                    let h = s div 3600;
                        m = (s mod 3600) div 60;
                        sec = s mod 60
                    in Inr (fmt_02d h @ '':'' @ fmt_02d m @ '':'' @ fmt_02d sec)))"

section \<open>Filters and command builders\<close>

definition scaler_for_source :: "int \<Rightarrow> int \<Rightarrow> string" where
  "scaler_for_source src_w src_h =
     (if src_h \<le> 720
      then ''scale=3840:2160:flags=bicubic+accurate_rnd+full_chroma_int''
      else ''scale=3840:2160:flags=lanczos+accurate_rnd+full_chroma_int'')"

definition x265_params :: "string list" where
  "x265_params =
     [''aq-mode=3'', ''aq-strength=1.0'', ''psy-rd=2.0'', ''psy-rdoq=1.2'', ''rd=4'',
      ''rdoq-level=2'', ''deblock=-1,-1'', ''sao=1'', ''ref=4'', ''bframes=6'',
      ''rc-lookahead=32'', ''me=star'', ''subme=4'', ''strong-intra-smoothing=1'']"

definition build_cmd_cpu_master :: "string \<Rightarrow> string \<Rightarrow> int \<Rightarrow> int \<Rightarrow> string list" where
  "build_cmd_cpu_master input_path output_path src_w src_h =
     (let vf = scaler_for_source src_w src_h;
          pix_fmt = (if CPU_10BIT then ''yuv420p10le'' else ''yuv420p'')
      in [''ffmpeg'', ''-y'', ''-hide_banner'', ''-nostats'',
          ''-progress'', ''pipe:1'',
          ''-i'', input_path,
          ''-vf'', vf,
          ''-c:v'', ''libx265'',
          ''-preset'', CPU_PRESET,
          ''-crf'', str_int CPU_CRF,
          ''-pix_fmt'', pix_fmt,
          ''-x265-params'', join '':'' x265_params,
          ''-c:a'', ''copy'',
          output_path])"

definition build_cmd_intel_qsv :: "string \<Rightarrow> string \<Rightarrow> int \<Rightarrow> int \<Rightarrow> string list" where
  "build_cmd_intel_qsv input_path output_path src_w src_h =
     (let vf = scaler_for_source src_w src_h;
          encoder = ''h264_qsv''
      in [''ffmpeg'', ''-y'', ''-hide_banner'', ''-nostats'',
          ''-progress'', ''pipe:1'',
          ''-i'', input_path,
          ''-vf'', vf @ '',format=nv12'',
          ''-c:v'', encoder,
          ''-global_quality'', str_int QSV_GLOBAL_QUALITY,
          ''-look_ahead'', ''1'',
          ''-b_strategy'', ''1'',
          ''-c:a'', ''copy'',
          output_path])"

section \<open>Encoding with ETA\<close>

text \<open>
  The builtins \<open>int(s)\<close> and \<open>float(s)\<close> on a string are parameters of the model:
  \<open>None\<close> stands for the \<open>ValueError\<close> they raise on text that is not a number.
\<close>

record builtins =
  py_int :: "string \<Rightarrow> int option"
  py_float :: "string \<Rightarrow> pyfloat option"

text \<open>
  A character is a code point below 256.  \<open>is_space\<close> holds of the white space that
  \<open>str.strip()\<close> removes in that range, and \<open>lower_char\<close> is \<open>str.lower()\<close> on one
  character: the letters A to Z and the capital letters from U+00C0 to U+00DE (the
  multiplication sign U+00D7 is not a letter) move up by 32.
\<close>

definition is_space :: "char \<Rightarrow> bool" where
  "is_space c = (c \<in> set [CHR '' '', CHR 0x09, CHR 0x0A, CHR 0x0B, CHR 0x0C, CHR 0x0D,
                             CHR 0x1C, CHR 0x1D, CHR 0x1E, CHR 0x1F, CHR 0x85, CHR 0xA0])"

definition strip :: "string \<Rightarrow> string" where
  "strip s = rev (dropWhile is_space (rev (dropWhile is_space s)))"

definition lower_char :: "char \<Rightarrow> char" where
  "lower_char c =
     (let n = of_char c :: nat
      in if (65 \<le> n \<and> n \<le> 90) \<or> (192 \<le> n \<and> n \<le> 222 \<and> n \<noteq> 215) then char_of (n + 32)
         else c)"

definition lower :: "string \<Rightarrow> string" where
  "lower s = map lower_char s"

text \<open>\<open>s.replace("x", "")\<close>.\<close>

definition remove_x :: "string \<Rightarrow> string" where
  "remove_x s = filter (\<lambda>c. c \<noteq> CHR ''x'') s"

text \<open>\<open>line.split("=", 1)\<close> on a line that contains the separator.\<close>

definition split_once :: "char \<Rightarrow> string \<Rightarrow> string \<times> string" where
  "split_once c s = (takeWhile (\<lambda>x. x \<noteq> c) s, drop 1 (dropWhile (\<lambda>x. x \<noteq> c) s))"

text \<open>
  The local variables of the progress loop.  Wall-clock readings of \<open>time.time()\<close> are
  finite and are kept as rationals.
\<close>

record est_state =
  last_print :: rat
  speed_samples :: "(rat \<times> pyfloat) list"
  out_time_us :: int
  speed_inst :: pyfloat

definition init_state :: est_state where
  "init_state = \<lparr>last_print = 0, speed_samples = [], out_time_us = 0, speed_inst = Fin 0\<rparr>"

text \<open>The locals of one report, and the four durations as the printed line shows them.\<close>

record report =
  pct :: pyfloat
  done_sec :: pyfloat
  remaining_sec :: pyfloat
  avg_speed :: "pyfloat option"
  use_speed :: pyfloat
  eta_sec :: pyfloat
  elapsed_wall :: pyfloat
  video_hms :: string
  total_hms :: string
  eta_hms :: string
  wall_hms :: string

text \<open>\<open>while speed_samples and speed_samples[0][0] < cutoff: speed_samples.pop(0)\<close>\<close>

fun evict :: "rat \<Rightarrow> (rat \<times> pyfloat) list \<Rightarrow> (rat \<times> pyfloat) list" where
  "evict cutoff [] = []"
| "evict cutoff ((t, s) # rest) = (if t < cutoff then evict cutoff rest else (t, s) # rest)"

text \<open>\<open>sum(s for _, s in speed_samples)\<close>: a left fold of \<open>+\<close> from the integer 0.\<close>

definition py_sum :: "(rat \<times> pyfloat) list \<Rightarrow> pyfloat" where
  "py_sum samples = foldl f_add (Fin 0) (map snd samples)"

definition mean_speed :: "(rat \<times> pyfloat) list \<Rightarrow> exn + pyfloat option" where
  "mean_speed samples =
     (if samples \<noteq> []
      then (case f_div (py_sum samples) (Fin (of_nat (length samples))) of
              Inl e \<Rightarrow> Inl e
            | Inr a \<Rightarrow> Inr (Some a))
      else Inr None)"

text \<open>\<open>avg_speed if avg_speed and avg_speed > 0 else speed_inst\<close>\<close>

definition choose_speed :: "pyfloat option \<Rightarrow> pyfloat \<Rightarrow> pyfloat" where
  "choose_speed avg inst =
     (case avg of
        None \<Rightarrow> inst
      | Some a \<Rightarrow> if truthy a \<and> f_gt a (Fin 0) then a else inst)"

text \<open>\<open>remaining_sec / use_speed if use_speed and use_speed > 0 else float("inf")\<close>\<close>

definition eta_of :: "pyfloat \<Rightarrow> pyfloat \<Rightarrow> exn + pyfloat" where
  "eta_of remaining speed =
     (if truthy speed \<and> f_gt speed (Fin 0) then f_div remaining speed else Inr PInf)"

text \<open>\<open>min((done_sec / duration) * 100.0, 100.0) if duration > 0 else 0.0\<close>\<close>

definition pct_of :: "pyfloat \<Rightarrow> pyfloat \<Rightarrow> exn + pyfloat" where
  "pct_of done duration =
     (if f_gt duration (Fin 0)
      then (case f_div done duration of
              Inl e \<Rightarrow> Inl e
            | Inr q \<Rightarrow> Inr (py_min (f_mul q (Fin 100)) (Fin 100)))
      else Inr (Fin 0))"

text \<open>\<open>out_time_us / 1_000_000.0\<close>: the integer is converted, then divided.\<close>

definition us_to_seconds :: "int \<Rightarrow> exn + pyfloat" where
  "us_to_seconds n =
     (case int_to_float n of
        Inl e \<Rightarrow> Inl e
      | Inr u \<Rightarrow> f_div u (Fin 1000000))"

text \<open>
  The body of the report branch (source lines 249 to 269).  The length of a list is
  below \<open>2 ^ 63\<close>, so its conversion in \<open>mean_speed\<close> cannot overflow.  The four
  \<open>fmt_hms\<close> calls of the printed line are evaluated in the order of the f-string; the
  first one that raises ends the report.
\<close>

definition make_report :: "est_state \<Rightarrow> rat \<Rightarrow> rat \<Rightarrow> pyfloat \<Rightarrow> exn + report" where
  "make_report st start_wall now duration =
     (case us_to_seconds (out_time_us st) of
        Inl e \<Rightarrow> Inl e
      | Inr secs \<Rightarrow>
         (let dn = py_min secs duration;
              rem = py_max (Fin 0) (f_sub duration dn)
          in case mean_speed (speed_samples st) of
               Inl e \<Rightarrow> Inl e
             | Inr avg \<Rightarrow>
                (let us = choose_speed avg (speed_inst st)
                 in case eta_of rem us of
                      Inl e \<Rightarrow> Inl e
                    | Inr eta \<Rightarrow>
                       (case pct_of dn duration of
                          Inl e \<Rightarrow> Inl e
                        | Inr p \<Rightarrow>
                           (let wall = Fin (now - start_wall)
                            in case fmt_hms (Some dn) of
                                 Inl e \<Rightarrow> Inl e
                               | Inr s1 \<Rightarrow>
                                  (case fmt_hms (Some duration) of
                                     Inl e \<Rightarrow> Inl e
                                   | Inr s2 \<Rightarrow>
                                      (case fmt_hms (Some eta) of
                                         Inl e \<Rightarrow> Inl e
                                       | Inr s3 \<Rightarrow>
                                          (case fmt_hms (Some wall) of
                                             Inl e \<Rightarrow> Inl e
                                           | Inr s4 \<Rightarrow>
                                              Inr \<lparr>pct = p, done_sec = dn,
                                                   remaining_sec = rem, avg_speed = avg,
                                                   use_speed = us, eta_sec = eta,
                                                   elapsed_wall = wall, video_hms = s1,
                                                   total_hms = s2, eta_hms = s3,
                                                   wall_hms = s4\<rparr>))))))))"

text \<open>
  One iteration of \<open>for line in proc.stdout\<close>.  \<open>now\<close> is what \<open>time.time()\<close> returns
  while this line is handled.  The result is the new state, the report printed by this
  line (if any) and whether the loop breaks.
\<close>

definition handle_line ::
  "builtins \<Rightarrow> rat \<Rightarrow> pyfloat \<Rightarrow> est_state \<Rightarrow> rat \<Rightarrow> string
     \<Rightarrow> exn + (est_state \<times> report list \<times> bool)" where
  "handle_line bi start_wall duration st now raw =
     (let line = strip raw
      in if line = [] \<or> CHR ''='' \<notin> set line then Inr (st, [], False)
         else
           (let (key, val) = split_once CHR ''='' line
            in if key = ''out_time_us'' then
                 (case py_int bi val of
                    Some n \<Rightarrow> Inr (st\<lparr>out_time_us := n\<rparr>, [], False)
                  | None \<Rightarrow> Inr (st, [], False))
               else if key = ''out_time_ms'' then
                 (case py_int bi val of
                    Some n \<Rightarrow> Inr (st\<lparr>out_time_us := n * 1000\<rparr>, [], False)
                  | None \<Rightarrow> Inr (st, [], False))
               else if key = ''speed'' then
                 (case py_float bi (remove_x (lower (strip val))) of
                    Some s \<Rightarrow>
                      Inr (st\<lparr>speed_inst := s,
                              speed_samples :=
                                evict (now - ETA_AVG_WINDOW_SECONDS)
                                  (speed_samples st @ [(now, s)])\<rparr>, [], False)
                  | None \<Rightarrow> Inr (st, [], False))
               else if key = ''progress'' then
                 (if now - last_print st \<ge> PRINT_EVERY_SECONDS \<or> val = ''end'' then
                    (case make_report st start_wall now duration of
                       Inl e \<Rightarrow> Inl e
                     | Inr r \<Rightarrow> Inr (st\<lparr>last_print := now\<rparr>, [r], val = ''end''))
                  else Inr (st, [], val = ''end''))
               else Inr (st, [], False)))"

text \<open>
  The loop over the lines the process writes before it closes its standard output, each
  with its arrival time.  It stops at the first exception and at the \<open>end\<close> marker.
\<close>

fun consume ::
  "builtins \<Rightarrow> rat \<Rightarrow> pyfloat \<Rightarrow> est_state \<Rightarrow> (rat \<times> string) list
     \<Rightarrow> exn option \<times> est_state \<times> report list" where
  "consume bi start_wall duration st [] = (None, st, [])"
| "consume bi start_wall duration st ((now, raw) # rest) =
     (case handle_line bi start_wall duration st now raw of
        Inl e \<Rightarrow> (Some e, st, [])
      | Inr (st', out, brk) \<Rightarrow>
          if brk then (None, st', out)
          else (case consume bi start_wall duration st' rest of
                  (r, st'', outs) \<Rightarrow> (r, st'', out @ outs)))"

section \<open>Probing\<close>

text \<open>
  What \<open>json.loads(run_capture(cmd))\<close> produces: \<open>subprocess.run\<close> raises when the tool
  is missing or exits non-zero (\<open>check=True\<close>), \<open>json.loads\<close> raises on text that is
  not JSON, and otherwise there is a document.
\<close>

datatype json =
    JNull
  | JBool bool
  | JInt int
  | JFloat pyfloat
  | JStr string
  | JArr "json list"
  | JObj "(string \<times> json) list"

datatype probe_run = Tool_unavailable | Exit_nonzero | Not_json | Document json

text \<open>\<open>x[key]\<close> with a string key, and \<open>x[0]\<close>.\<close>

fun subscript_key :: "json \<Rightarrow> string \<Rightarrow> exn + json" where
  "subscript_key (JObj kvs) k = (case map_of kvs k of None \<Rightarrow> Inl KeyError | Some v \<Rightarrow> Inr v)"
| "subscript_key _ k = Inl TypeError"

fun subscript_0 :: "json \<Rightarrow> exn + json" where
  "subscript_0 (JArr []) = Inl IndexError"
| "subscript_0 (JArr (x # xs)) = Inr x"
| "subscript_0 (JStr []) = Inl IndexError"
| "subscript_0 (JStr (c # cs)) = Inr (JStr [c])"
| "subscript_0 (JObj kvs) = Inl KeyError"
| "subscript_0 _ = Inl TypeError"

text \<open>\<open>float(x)\<close> and \<open>int(x)\<close> on a loaded JSON value.\<close>

fun to_float :: "builtins \<Rightarrow> json \<Rightarrow> exn + pyfloat" where
  "to_float bi (JStr s) = (case py_float bi s of None \<Rightarrow> Inl ValueError | Some x \<Rightarrow> Inr x)"
| "to_float bi (JInt n) = int_to_float n"
| "to_float bi (JFloat x) = Inr x"
| "to_float bi (JBool b) = Inr (Fin (if b then 1 else 0))"
| "to_float bi _ = Inl TypeError"

fun to_int :: "builtins \<Rightarrow> json \<Rightarrow> exn + int" where
  "to_int bi (JStr s) = (case py_int bi s of None \<Rightarrow> Inl ValueError | Some n \<Rightarrow> Inr n)"
| "to_int bi (JInt n) = Inr n"
| "to_int bi (JFloat x) = int_of_float x"
| "to_int bi (JBool b) = Inr (if b then 1 else 0)"
| "to_int bi _ = Inl TypeError"

text \<open>\<open>s.split(sep)\<close> for a one-character separator.\<close>

fun split_on :: "char \<Rightarrow> string \<Rightarrow> string list" where
  "split_on c [] = [[]]"
| "split_on c (x # xs) =
     (case split_on c xs of
        [] \<Rightarrow> [[]]
      | p # ps \<Rightarrow> if x = c then [] # p # ps else (x # p) # ps)"

text \<open>
  \<open>rr = s.get("r_frame_rate", "0/1")\<close>, \<open>num, den = rr.split("/")\<close> and
  \<open>float(num) / float(den) if float(den) != 0 else 0.0\<close>.
\<close>

definition frame_rate :: "builtins \<Rightarrow> json \<Rightarrow> exn + pyfloat" where
  "frame_rate bi s =
     (case s of
        JObj kvs \<Rightarrow>
          (case (case map_of kvs ''r_frame_rate'' of None \<Rightarrow> JStr ''0/1'' | Some v \<Rightarrow> v) of
             JStr rr \<Rightarrow>
               (case split_on CHR ''/'' rr of
                  [num, den] \<Rightarrow>
                    (case py_float bi den of
                       None \<Rightarrow> Inl ValueError
                     | Some d \<Rightarrow>
                         if \<not> f_eq d (Fin 0) then
                           (case py_float bi num of
                              None \<Rightarrow> Inl ValueError
                            | Some n \<Rightarrow> f_div n d)
                         else Inr (Fin 0))
                | _ \<Rightarrow> Inl ValueError)
           | _ \<Rightarrow> Inl AttributeError)
      | _ \<Rightarrow> Inl AttributeError)"

definition ffprobe_info :: "builtins \<Rightarrow> probe_run \<Rightarrow> exn + (pyfloat \<times> int \<times> int \<times> pyfloat)" where
  "ffprobe_info bi run =
     (case run of
        Tool_unavailable \<Rightarrow> Inl (FileNotFoundError ''ffprobe'')
      | Exit_nonzero \<Rightarrow> Inl CalledProcessError
      | Not_json \<Rightarrow> Inl JSONDecodeError
      | Document data \<Rightarrow>
          (case subscript_key data ''format'' of
             Inl e \<Rightarrow> Inl e
           | Inr fmt \<Rightarrow>
              (case subscript_key fmt ''duration'' of
                 Inl e \<Rightarrow> Inl e
               | Inr dj \<Rightarrow>
                  (case to_float bi dj of
                     Inl e \<Rightarrow> Inl e
                   | Inr duration \<Rightarrow>
                      (case subscript_key data ''streams'' of
                         Inl e \<Rightarrow> Inl e
                       | Inr streams \<Rightarrow>
                          (case subscript_0 streams of
                             Inl e \<Rightarrow> Inl e
                           | Inr s \<Rightarrow>
                              (case subscript_key s ''width'' of
                                 Inl e \<Rightarrow> Inl e
                               | Inr wj \<Rightarrow>
                                  (case to_int bi wj of
                                     Inl e \<Rightarrow> Inl e
                                   | Inr w \<Rightarrow>
                                      (case subscript_key s ''height'' of
                                         Inl e \<Rightarrow> Inl e
                                       | Inr hj \<Rightarrow>
                                          (case to_int bi hj of
                                             Inl e \<Rightarrow> Inl e
                                           | Inr h \<Rightarrow>
                                              (case frame_rate bi s of
                                                 Inl e \<Rightarrow> Inl e
                                               | Inr fps \<Rightarrow>
                                                   Inr (duration, w, h, fps))))))))))))"

section \<open>The environment of the batch\<close>

text \<open>
  A finished \<open>ffmpeg\<close> process as \<open>encode_with_eta\<close> sees it: the clock reading when
  it was started, the lines of its progress channel with the clock reading at which each
  is handled, its exit code and its captured standard error.
\<close>

record proc =
  p_start :: rat
  p_stdout :: "(rat \<times> string) list"
  p_returncode :: int
  p_stderr :: string

text \<open>
  Everything outside the program, over a state \<open>'w\<close> of the machine.  Queries read the
  state; running an encode also changes it (it may create the output file).
  \<open>encoders_stdout\<close> is the standard output of \<open>ffmpeg -hide_banner -encoders\<close>, or
  \<open>None\<close> when \<open>subprocess.run\<close> raises.
\<close>

record 'w sys =
  ffmpeg_version_ok :: "'w \<Rightarrow> bool"
  input_dir_exists :: "'w \<Rightarrow> bool"
  iterdir :: "'w \<Rightarrow> (string \<times> bool) list"
  encoders_stdout :: "'w \<Rightarrow> string option"
  run_ffprobe :: "'w \<Rightarrow> string \<Rightarrow> probe_run"
  path_exists :: "'w \<Rightarrow> string \<Rightarrow> bool"
  run_ffmpeg :: "'w \<Rightarrow> string list \<Rightarrow> proc \<times> 'w"

text \<open>What the program does that can be observed: the tools it runs and the lines it prints.\<close>

datatype event =
    Query_encoders string
  | Run_ffprobe string
  | Run_ffmpeg "string list"
  | Print_no_videos
  | Print_warn_no_qsv
  | Print_skip_4k string int int
  | Print_skip_exists string
  | Print_encoding string int int string
  | Print_duration string string
  | Print_progress report
  | Print_done
  | Print_qsv_failed string
  | Print_skip_fallback string
  | Print_batch_complete

section \<open>Capability detection\<close>

definition ffmpeg_exists :: "'w sys \<Rightarrow> 'w \<Rightarrow> bool" where
  "ffmpeg_exists sys w = ffmpeg_version_ok sys w"

definition ffmpeg_has_encoder :: "'w sys \<Rightarrow> 'w \<Rightarrow> string \<Rightarrow> bool" where
  "ffmpeg_has_encoder sys w name =
     (case encoders_stdout sys w of
        Some out \<Rightarrow> str_contains name out
      | None \<Rightarrow> False)"

definition intel_qsv_available :: "'w sys \<Rightarrow> 'w \<Rightarrow> bool" where
  "intel_qsv_available sys w =
     (ffmpeg_has_encoder sys w ''hevc_qsv'' \<or> ffmpeg_has_encoder sys w ''h264_qsv'')"

text \<open>The encoder queries \<open>intel_qsv_available\<close> runs: the second only if the first is false.\<close>

definition qsv_queries :: "'w sys \<Rightarrow> 'w \<Rightarrow> event list" where
  "qsv_queries sys w =
     (if ffmpeg_has_encoder sys w ''hevc_qsv'' then [Query_encoders ''hevc_qsv'']
      else [Query_encoders ''hevc_qsv'', Query_encoders ''h264_qsv''])"

section \<open>The encode supervisor\<close>

definition path_name :: "string \<Rightarrow> string" where
  "path_name p = rev (takeWhile (\<lambda>c. c \<noteq> CHR ''/'') (rev p))"

definition encode_with_eta ::
  "builtins \<Rightarrow> 'w sys \<Rightarrow> 'w \<Rightarrow> string \<Rightarrow> string list \<Rightarrow> pyfloat
     \<Rightarrow> exn option \<times> event list \<times> 'w" where
  "encode_with_eta bi sys w output_path cmd duration =
     (case fmt_hms (Some duration) of
        Inl e \<Rightarrow> (Some e, [], w)
      | Inr hms \<Rightarrow>
          (let (p, w') = run_ffmpeg sys w cmd;
               head = [Print_duration hms (path_name output_path), Run_ffmpeg cmd]
           in case consume bi (p_start p) duration init_state (p_stdout p) of
                (Some e, st, reps) \<Rightarrow> (Some e, head @ map Print_progress reps, w')
              | (None, st, reps) \<Rightarrow>
                  if p_returncode p \<noteq> 0 then
                    (Some (RuntimeError (''ffmpeg failed with exit code '' @
                             str_int (p_returncode p) @ [CHR 0x0A] @ p_stderr p)),
                     head @ map Print_progress reps, w')
                  else (None, head @ map Print_progress reps @ [Print_done], w')))"

section \<open>Main\<close>

definition INPUT_DIR :: string where
  "INPUT_DIR = ''/media/daniel/Aether OS''"

definition OUTPUT_DIR :: string where
  "OUTPUT_DIR = ''/home/daniel/Videos/files''"

definition VIDEO_EXTENSIONS :: "string list" where
  "VIDEO_EXTENSIONS =
     [''.mp4'', ''.mkv'', ''.avi'', ''.mov'', ''.webm'', ''.flv'', ''.mpg'', ''.mpeg'', ''.m4v'']"

text \<open>
  \<open>Path.suffix\<close> and \<open>Path.stem\<close> of a file name, with \<open>i = name.rfind('.')\<close> and the test
  \<open>0 < i < len(name) - 1\<close>; \<open>dir / name\<close>.
\<close>

definition last_dot :: "string \<Rightarrow> nat option" where
  "last_dot name =
     (if CHR ''.'' \<in> set name
      then Some (length name - length (takeWhile (\<lambda>c. c \<noteq> CHR ''.'') (rev name)) - 1)
      else None)"

definition suffix_of :: "string \<Rightarrow> string" where
  "suffix_of name =
     (case last_dot name of
        Some i \<Rightarrow> if 0 < i \<and> i + 1 < length name then drop i name else []
      | None \<Rightarrow> [])"

definition stem_of :: "string \<Rightarrow> string" where
  "stem_of name =
     (case last_dot name of
        Some i \<Rightarrow> if 0 < i \<and> i + 1 < length name then take i name else name
      | None \<Rightarrow> name)"

definition path_join :: "string \<Rightarrow> string \<Rightarrow> string" where
  "path_join dir name = dir @ ''/'' @ name"

definition out_qsv :: "string \<Rightarrow> string" where
  "out_qsv name = path_join OUTPUT_DIR (stem_of name @ ''_4k_qsv.mp4'')"

definition out_cpu :: "string \<Rightarrow> string" where
  "out_cpu name = path_join OUTPUT_DIR (stem_of name @ ''_4k_master.mp4'')"

text \<open>
  The body of \<open>for video in videos\<close> (source lines 310 to 348) for the directory entry
  \<open>name\<close>.  An exception that leaves the body leaves the loop and \<open>main\<close>: the body has one
  handler, \<open>except RuntimeError\<close> around the hardware encode.
\<close>

definition process_video ::
  "builtins \<Rightarrow> 'w sys \<Rightarrow> string \<Rightarrow> 'w \<Rightarrow> string \<Rightarrow> exn option \<times> event list \<times> 'w" where
  "process_video bi sys mode w name =
     (let video = path_join INPUT_DIR name
      in case ffprobe_info bi (run_ffprobe sys w video) of
           Inl e \<Rightarrow> (Some e, [Run_ffprobe video], w)
         | Inr (duration, vw, vh, fps) \<Rightarrow>
             if SKIP_IF_4K_OR_HIGHER \<and> (vw \<ge> 3840 \<or> vh \<ge> 2160) then
               (None, [Run_ffprobe video, Print_skip_4k name vw vh], w)
             else
               (let out = (if mode = ''intel_qsv'' then out_qsv name else out_cpu name)
                in if path_exists sys w out then
                     (None, [Run_ffprobe video, Print_skip_exists (path_name out)], w)
                   else
                     (let head = [Run_ffprobe video, Print_encoding name vw vh mode]
                      in if mode = ''intel_qsv'' then
                           (case encode_with_eta bi sys w out
                                   (build_cmd_intel_qsv video out vw vh) duration of
                              (Some (RuntimeError msg), evs, w1) \<Rightarrow>
                                if path_exists sys w1 (out_cpu name) then
                                  (None,
                                   head @ evs @ [Print_qsv_failed msg,
                                     Print_skip_fallback (path_name (out_cpu name))], w1)
                                else
                                  (case encode_with_eta bi sys w1 (out_cpu name)
                                          (build_cmd_cpu_master video (out_cpu name) vw vh)
                                          duration of
                                     (r, evs2, w2) \<Rightarrow>
                                       (r, head @ evs @ [Print_qsv_failed msg] @ evs2, w2))
                            | (r, evs, w1) \<Rightarrow> (r, head @ evs, w1))
                         else
                           (case encode_with_eta bi sys w out
                                   (build_cmd_cpu_master video out vw vh) duration of
                              (r, evs, w1) \<Rightarrow> (r, head @ evs, w1)))))"

fun batch_loop ::
  "builtins \<Rightarrow> 'w sys \<Rightarrow> string \<Rightarrow> 'w \<Rightarrow> string list \<Rightarrow> exn option \<times> event list \<times> 'w" where
  "batch_loop bi sys mode w [] = (None, [], w)"
| "batch_loop bi sys mode w (name # rest) =
     (case process_video bi sys mode w name of
        (Some e, evs, w1) \<Rightarrow> (Some e, evs, w1)
      | (None, evs, w1) \<Rightarrow>
          (case batch_loop bi sys mode w1 rest of
             (r, evs', w2) \<Rightarrow> (r, evs @ evs', w2)))"

text \<open>The files of the input folder that \<open>main\<close> keeps, in the order of \<open>iterdir()\<close>.\<close>

definition videos_of :: "(string \<times> bool) list \<Rightarrow> string list" where
  "videos_of entries =
     map fst (filter (\<lambda>(name, is_file). is_file \<and> lower (suffix_of name) \<in> set VIDEO_EXTENSIONS)
                entries)"

definition main :: "builtins \<Rightarrow> 'w sys \<Rightarrow> 'w \<Rightarrow> exn option \<times> event list \<times> 'w" where
  "main bi sys w =
     (if \<not> ffmpeg_exists sys w then
        (Some (RuntimeError ''ffmpeg not found. Install it: sudo apt install ffmpeg''), [], w)
      else if \<not> input_dir_exists sys w then
        (Some (FileNotFoundError (''Input folder does not exist: '' @ INPUT_DIR)), [], w)
      else
        (let videos = videos_of (iterdir sys w)
         in if videos = [] then (None, [Print_no_videos], w)
            else
              (let qsv_ok = intel_qsv_available sys w;
                   warn = (if MODE = ''intel_qsv'' \<and> \<not> qsv_ok then [Print_warn_no_qsv] else []);
                   mode = (if MODE \<noteq> ''intel_qsv'' \<or> qsv_ok then MODE else ''cpu_master'')
               in case batch_loop bi sys mode w videos of
                    (None, evs, w1) \<Rightarrow>
                      (None, qsv_queries sys w @ warn @ evs @ [Print_batch_complete], w1)
                  | (Some e, evs, w1) \<Rightarrow> (Some e, qsv_queries sys w @ warn @ evs, w1))))"

section \<open>Observations on the progress stream\<close>

text \<open>
  Functions used to state properties of the loop; none is part of the program.
  \<open>parsed_speed\<close> is the sample a line contributes (the line reaches the \<open>speed\<close>
  branch and \<open>float\<close> accepts its value), \<open>is_end\<close> recognises the terminal marker,
  \<open>handled\<close> is the part of the stream the loop reads (up to and including the first
  terminal marker) and \<open>received\<close> lists the samples of a stream with their arrival times.
\<close>

definition parsed_speed :: "builtins \<Rightarrow> string \<Rightarrow> pyfloat option" where
  "parsed_speed bi raw =
     (let line = strip raw
      in if line = [] \<or> CHR ''='' \<notin> set line then None
         else (let (key, val) = split_once CHR ''='' line
               in if key = ''speed'' then py_float bi (remove_x (lower (strip val)))
                  else None))"

definition is_end :: "string \<Rightarrow> bool" where
  "is_end raw =
     (let line = strip raw
      in line \<noteq> [] \<and> CHR ''='' \<in> set line \<and>
         split_once CHR ''='' line = (''progress'', ''end''))"

fun received :: "builtins \<Rightarrow> (rat \<times> string) list \<Rightarrow> (rat \<times> pyfloat) list" where
  "received bi [] = []"
| "received bi ((now, raw) # rest) =
     (case parsed_speed bi raw of
        Some s \<Rightarrow> (now, s) # received bi rest
      | None \<Rightarrow> received bi rest)"

fun handled :: "(rat \<times> string) list \<Rightarrow> (rat \<times> string) list" where
  "handled [] = []"
| "handled ((now, raw) # rest) = (now, raw) # (if is_end raw then [] else handled rest)"

text \<open>
  The cutoff of the most recent eviction: the arrival time of the last sample minus the
  window, or \<open>c\<close> when there is no sample.
\<close>

definition cutoff_after :: "rat \<Rightarrow> (rat \<times> pyfloat) list \<Rightarrow> rat" where
  "cutoff_after c samples =
     (if samples = [] then c else fst (last samples) - ETA_AVG_WINDOW_SECONDS)"

section \<open>Observations on a run\<close>

text \<open>The encode commands a trace started and the files it probed, in order.\<close>

fun spawned :: "event list \<Rightarrow> string list list" where
  "spawned [] = []"
| "spawned (Run_ffmpeg cmd # es) = cmd # spawned es"
| "spawned (e # es) = spawned es"

fun probed :: "event list \<Rightarrow> string list" where
  "probed [] = []"
| "probed (Run_ffprobe path # es) = path # probed es"
| "probed (e # es) = probed es"


section \<open>Concrete inputs\<close>

text \<open>
  Number parsers for plain decimal literals, on which they agree with \<open>int\<close> and
  \<open>float\<close>: an optional sign, digits, and for floats an optional fraction, or one of
  \<open>inf\<close>, \<open>-inf\<close>, \<open>nan\<close>.  Everything else is rejected.
\<close>

definition digit_of :: "char \<Rightarrow> int option" where
  "digit_of c = (let n = of_char c :: int in if 48 \<le> n \<and> n \<le> 57 then Some (n - 48) else None)"

fun digits_val :: "string \<Rightarrow> int \<Rightarrow> int option" where
  "digits_val [] acc = Some acc"
| "digits_val (c # cs) acc =
     (case digit_of c of None \<Rightarrow> None | Some d \<Rightarrow> digits_val cs (10 * acc + d))"

definition dec_nat :: "string \<Rightarrow> int option" where
  "dec_nat s = (if s = [] then None else digits_val s 0)"

definition unsign :: "string \<Rightarrow> bool \<times> string" where
  "unsign s =
     (case s of
        [] \<Rightarrow> (False, [])
      | c # cs \<Rightarrow> if c = CHR ''-'' then (True, cs) else if c = CHR ''+'' then (False, cs)
                  else (False, s))"

definition dec_int :: "string \<Rightarrow> int option" where
  "dec_int s =
     (let (neg, body) = unsign s
      in case dec_nat body of
           None \<Rightarrow> None
         | Some n \<Rightarrow> Some (if neg then - n else n))"

definition dec_float :: "string \<Rightarrow> pyfloat option" where
  "dec_float s =
     (if s = ''inf'' then Some PInf
      else if s = ''-inf'' then Some NInf
      else if s = ''nan'' then Some NaN
      else
        (let (neg, body) = unsign s;
             ip = takeWhile (\<lambda>c. c \<noteq> CHR ''.'') body;
             rest = dropWhile (\<lambda>c. c \<noteq> CHR ''.'') body
         in case dec_nat ip of
              None \<Rightarrow> None
            | Some i \<Rightarrow>
                (case rest of
                   [] \<Rightarrow> Some (Fin (if neg then - of_int i else of_int i))
                 | dot # fp \<Rightarrow>
                     (case dec_nat fp of
                        None \<Rightarrow> None
                      | Some f \<Rightarrow>
                          (let v = of_int i + of_int f / 10 ^ length fp
                           in Some (Fin (if neg then - v else v)))))))"

definition dec_builtins :: builtins where
  "dec_builtins = \<lparr>py_int = dec_int, py_float = dec_float\<rparr>"

text \<open>
  A small machine for concrete runs.  Its state is the list of files that exist; the
  input folder, the encoder listing, the probe results and the behaviour of each encode
  are given, and an encode that exits with 0 leaves its output file (the last argument
  of the command) behind.
\<close>

definition demo_sys ::
  "(string \<times> bool) list \<Rightarrow> string option \<Rightarrow> (string \<Rightarrow> probe_run) \<Rightarrow> (string list \<Rightarrow> proc)
     \<Rightarrow> string list sys" where
  "demo_sys entries listing probe encode =
     \<lparr>ffmpeg_version_ok = (\<lambda>w. True),
      input_dir_exists = (\<lambda>w. True),
      iterdir = (\<lambda>w. entries),
      encoders_stdout = (\<lambda>w. listing),
      run_ffprobe = (\<lambda>w. probe),
      path_exists = (\<lambda>w p. p \<in> set w),
      run_ffmpeg = (\<lambda>w cmd. (encode cmd,
                      if p_returncode (encode cmd) = 0 then last cmd # w else w))\<rparr>"

definition hd_probe :: probe_run where
  "hd_probe =
     Document (JObj [(''format'', JObj [(''duration'', JStr ''120.000000'')]),
                     (''streams'', JArr [JObj [(''width'', JInt 1920),
                                               (''height'', JInt 1080),
                                               (''r_frame_rate'', JStr ''30/1'')]])])"

definition failing_proc :: proc where
  "failing_proc =
     \<lparr>p_start = 0, p_stdout = [], p_returncode = 1,
      p_stderr = ''Error while opening encoder''\<rparr>"

definition good_proc :: proc where
  "good_proc =
     \<lparr>p_start = 0,
      p_stdout = [(1, ''speed=2.0x''), (1, ''out_time_us=60000000''), (2, ''progress=end'')],
      p_returncode = 0, p_stderr = []\<rparr>"

definition two_files :: "(string \<times> bool) list" where
  "two_files = [(''a.mp4'', True), (''b.mkv'', True)]"

definition qsv_listing :: string where
  "qsv_listing = '' V..... h264_qsv   H.264 (Intel Quick Sync Video acceleration)''"

definition hevc_listing :: string where
  "hevc_listing = '' V..... hevc_qsv   HEVC (Intel Quick Sync Video acceleration)''"


text \<open>A probe that fails on the first file only.\<close>

definition first_fails :: "string \<Rightarrow> probe_run" where
  "first_fails path = (if path = ''/media/daniel/Aether OS/a.mp4'' then Exit_nonzero else hd_probe)"

text \<open>
  Five machines with the two input files: one where every encode fails, one where the
  first probe fails, one without a hardware encoder, one without a hardware encoder
  where every encode fails, and one that lists \<open>hevc_qsv\<close>.
\<close>

definition failing_machine :: "string list sys" where
  "failing_machine = demo_sys two_files (Some qsv_listing) (\<lambda>p. hd_probe) (\<lambda>c. failing_proc)"

definition probe_fail_machine :: "string list sys" where
  "probe_fail_machine = demo_sys two_files (Some qsv_listing) first_fails (\<lambda>c. good_proc)"



definition hevc_machine :: "string list sys" where
  "hevc_machine = demo_sys two_files (Some hevc_listing) (\<lambda>p. hd_probe) (\<lambda>c. good_proc)"

definition failure_message :: string where
  "failure_message = ''ffmpeg failed with exit code 1'' @ [CHR 0x0A] @ ''Error while opening encoder''"

section \<open>Properties of the utilities and the command builders\<close>

subsection \<open>Substring test\<close>

lemma starts_with_iff: "starts_with n h \<longleftrightarrow> (\<exists>s. h = n @ s)"
  by (induction n h rule: starts_with.induct) auto

lemma str_contains_iff: "str_contains n h \<longleftrightarrow> (\<exists>p s. h = p @ n @ s)"
proof (induction h)
  case Nil
  then show ?case by simp
next
  case (Cons y ys)
  show ?case
  proof
    assume "str_contains n (y # ys)"
    then consider "starts_with n (y # ys)" | "str_contains n ys" by auto
    then show "\<exists>p s. y # ys = p @ n @ s"
    proof cases
      case 1
      then obtain s where "y # ys = n @ s" using starts_with_iff by blast
      then have "y # ys = [] @ n @ s" by simp
      then show ?thesis by blast
    next
      case 2
      then obtain p s where "ys = p @ n @ s" using Cons.IH by blast
      then have "y # ys = (y # p) @ n @ s" by simp
      then show ?thesis by blast
    qed
  next
    assume "\<exists>p s. y # ys = p @ n @ s"
    then obtain p s where ps: "y # ys = p @ n @ s" by blast
    show "str_contains n (y # ys)"
    proof (cases p)
      case Nil
      with ps have "starts_with n (y # ys)" using starts_with_iff by auto
      then show ?thesis by simp
    next
      case (Cons a p')
      with ps have "ys = p' @ n @ s" by simp
      then have "str_contains n ys" using Cons.IH by blast
      then show ?thesis by simp
    qed
  qed
qed

subsection \<open>The duration formatter\<close>

lemma fmt_hms_None: "fmt_hms None = Inr placeholder"
  by (simp add: fmt_hms_def)

lemma fmt_hms_negative: "f_lt x (Fin 0) \<Longrightarrow> fmt_hms (Some x) = Inr placeholder"
  by (simp add: fmt_hms_def)

lemma fmt_hms_infinite:
  "fmt_hms (Some PInf) = Inr placeholder" "fmt_hms (Some NInf) = Inr placeholder"
  by (simp_all add: fmt_hms_def)

text \<open>
  A finite non-negative duration is rounded half up, which is a nearest whole second,
  and printed as hours, minutes and seconds.
\<close>

lemma fmt_hms_finite:
  assumes "0 \<le> r"
  shows "fmt_hms (Some (Fin r)) =
           Inr (fmt_02d (\<lfloor>r + 1 / 2\<rfloor> div 3600) @ '':'' @
                fmt_02d ((\<lfloor>r + 1 / 2\<rfloor> mod 3600) div 60) @ '':'' @
                fmt_02d (\<lfloor>r + 1 / 2\<rfloor> mod 60))"
  using assms by (simp add: fmt_hms_def Let_def)

lemma round_half_up_nearest: "\<bar>of_int \<lfloor>r + 1 / 2\<rfloor> - r\<bar> \<le> (1 / 2 :: rat)"
  by linarith

text \<open>The formatter raises on exactly one input, NaN.\<close>

lemma fmt_hms_raises_iff: "(\<exists>e. fmt_hms x = Inl e) \<longleftrightarrow> x = Some NaN"
proof (cases x)
  case None
  then show ?thesis by (simp add: fmt_hms_def)
next
  case (Some y)
  then show ?thesis by (cases y) (auto simp: fmt_hms_def Let_def)
qed

text \<open>
  Claim C10.  The formatter is said to be total and never to raise.  NaN is a float that
  is neither below zero nor equal to infinity, so it passes the guard of \<open>fmt_hms\<close>, and
  \<open>int(nan + 0.5)\<close> raises \<open>ValueError\<close>: the guard misses this one case.
\<close>

theorem fmt_hms_nan_raises: "fmt_hms (Some NaN) = Inl ValueError"
  by (simp add: fmt_hms_def)

subsection \<open>Filter selection\<close>

text \<open>
  Claim C6.  The filter depends on the source height alone: bicubic up to 720 lines,
  lanczos above, whatever the width; and both command builders pass the filter chosen
  for that height to the engine (the hardware builder appends the pixel format
  conversion to it).
\<close>

theorem scaler_by_height_only:
  "scaler_for_source w h =
     (if h \<le> 720
      then ''scale=3840:2160:flags=bicubic+accurate_rnd+full_chroma_int''
      else ''scale=3840:2160:flags=lanczos+accurate_rnd+full_chroma_int'')
   \<and> scaler_for_source w h = scaler_for_source w' h
   \<and> build_cmd_cpu_master i out w h ! 8 = ''-vf''
   \<and> build_cmd_cpu_master i out w h ! 9 = scaler_for_source w h
   \<and> build_cmd_intel_qsv i out w h ! 8 = ''-vf''
   \<and> build_cmd_intel_qsv i out w h ! 9 = scaler_for_source w h @ '',format=nv12''"
  by (simp add: scaler_for_source_def build_cmd_cpu_master_def build_cmd_intel_qsv_def Let_def)

subsection \<open>Capability detection\<close>

text \<open>
  Claim C7.  The detector is true exactly when the encoder listing was obtained and one
  of the two identifiers occurs in it; when the query fails the result is false, and no
  case raises (the result is a plain truth value).  The detector runs the listing query
  once per identifier; both runs read the same machine state.
\<close>

theorem intel_qsv_available_iff:
  "intel_qsv_available sys w =
     (case encoders_stdout sys w of
        None \<Rightarrow> False
      | Some out \<Rightarrow>
          (\<exists>p s. out = p @ ''hevc_qsv'' @ s) \<or> (\<exists>p s. out = p @ ''h264_qsv'' @ s))"
  by (simp add: intel_qsv_available_def ffmpeg_has_encoder_def str_contains_iff
      split: option.splits)

section \<open>Properties of the progress estimator\<close>

subsection \<open>Float operations on finite values\<close>

lemma py_min_Fin: "py_min (Fin a) (Fin b) = Fin (min a b)"
  by (auto simp: py_min_def)

lemma py_max_Fin: "py_max (Fin a) (Fin b) = Fin (max a b)"
  by (auto simp: py_max_def f_gt_def)

lemma f_sub_Fin: "f_sub (Fin a) (Fin b) = Fin (a - b)"
  by (simp add: f_sub_def)

lemma f_gt_zero_truthy: "f_gt a (Fin 0) \<Longrightarrow> truthy a"
  by (cases a) (auto simp: f_gt_def)

lemma fmt_hms_ok: "x \<noteq> NaN \<Longrightarrow> \<exists>s. fmt_hms (Some x) = Inr s"
  by (cases x) (auto simp: fmt_hms_def Let_def)

subsection \<open>The pieces of a report\<close>

lemma evict_dropWhile: "evict c xs = dropWhile (\<lambda>p. fst p < c) xs"
  by (induction c xs rule: evict.induct) auto

lemma mean_speed_ok: "\<exists>a. mean_speed xs = Inr a \<and> (a = None \<longleftrightarrow> xs = [])"
  by (cases "py_sum xs") (auto simp: mean_speed_def)

lemma foldl_f_add_Fin: "foldl f_add (Fin a) (map Fin vs) = Fin (a + sum_list vs)"
  by (induction vs arbitrary: a) (auto simp: algebra_simps)

text \<open>On finite samples the average is the arithmetic mean.\<close>

lemma mean_speed_finite:
  assumes "map snd xs = map Fin vs" "vs \<noteq> []"
  shows "mean_speed xs = Inr (Some (Fin (sum_list vs / of_nat (length vs))))"
proof -
  have len: "length xs = length vs" using assms(1) by (metis length_map)
  then have ne: "xs \<noteq> []" using assms(2) by auto
  have "py_sum xs = Fin (sum_list vs)" using assms(1) by (simp add: py_sum_def foldl_f_add_Fin)
  then show ?thesis using ne len assms(2) by (simp add: mean_speed_def)
qed

lemma choose_speed_cases:
  "choose_speed avg inst =
     (case avg of None \<Rightarrow> inst | Some a \<Rightarrow> if f_gt a (Fin 0) then a else inst)"
  by (auto simp: choose_speed_def f_gt_zero_truthy split: option.splits)

lemma eta_of_cases:
  "eta_of (Fin rem) us =
     Inr (case us of
            Fin v \<Rightarrow> if 0 < v then Fin (rem / v) else PInf
          | PInf \<Rightarrow> Fin 0
          | _ \<Rightarrow> PInf)"
  by (cases us) (auto simp: eta_of_def f_gt_def)

lemma pct_of_Fin:
  "pct_of (Fin a) (Fin d) = Inr (Fin (if 0 < d then min (a / d * 100) 100 else 0))"
  by (auto simp: pct_of_def f_gt_def py_min_Fin)

lemma us_to_seconds_ok:
  "\<not> float_overflows n \<Longrightarrow> us_to_seconds n = Inr (Fin (of_int n / 1000000))"
  by (simp add: us_to_seconds_def int_to_float_def)

lemma us_to_seconds_Inr:
  "us_to_seconds n = Inr x \<Longrightarrow> x = Fin (of_int n / 1000000) \<and> \<not> float_overflows n"
  by (auto simp: us_to_seconds_def int_to_float_def split: if_splits)

text \<open>
  The fields of a report, whenever one is produced: each is the value the source
  computes from the state, and the elapsed output time was within the float range.
\<close>

lemma make_report_fields:
  assumes "make_report st sw now d = Inr r"
  shows "\<not> float_overflows (out_time_us st)"
    and "done_sec r = py_min (Fin (of_int (out_time_us st) / 1000000)) d"
    and "remaining_sec r = py_max (Fin 0) (f_sub d (done_sec r))"
    and "pct_of (done_sec r) d = Inr (pct r)"
    and "mean_speed (speed_samples st) = Inr (avg_speed r)"
    and "use_speed r = choose_speed (avg_speed r) (speed_inst st)"
    and "eta_of (remaining_sec r) (use_speed r) = Inr (eta_sec r)"
    and "elapsed_wall r = Fin (now - sw)"
    and "fmt_hms (Some (done_sec r)) = Inr (video_hms r)"
    and "fmt_hms (Some d) = Inr (total_hms r)"
    and "fmt_hms (Some (eta_sec r)) = Inr (eta_hms r)"
    and "fmt_hms (Some (elapsed_wall r)) = Inr (wall_hms r)"
  using assms unfolding make_report_def Let_def
  by (auto split: sum.splits dest: us_to_seconds_Inr)

text \<open>
  For a finite total duration and an elapsed output time within the float range a
  report is always produced.
\<close>

lemma make_report_exists:
  fixes d :: rat
  assumes "\<not> float_overflows (out_time_us st)"
  shows "\<exists>r. make_report st sw now (Fin d) = Inr r"
proof -
  define e where "e = (of_int (out_time_us st) / 1000000 :: rat)"
  have secs: "us_to_seconds (out_time_us st) = Inr (Fin e)"
    using us_to_seconds_ok[OF assms] by (simp add: e_def)
  obtain avg where avg: "mean_speed (speed_samples st) = Inr avg"
    using mean_speed_ok by blast
  define us where "us = choose_speed avg (speed_inst st)"
  define rem where "rem = max 0 (d - min e d)"
  define eta where
    "eta = (case us of Fin v \<Rightarrow> if 0 < v then Fin (rem / v) else PInf
            | PInf \<Rightarrow> Fin 0 | _ \<Rightarrow> PInf)"
  have eta: "eta_of (Fin rem) us = Inr eta" by (simp add: eta_of_cases eta_def)
  have "eta \<noteq> NaN" by (auto simp: eta_def split: pyfloat.splits)
  then obtain s3 where s3: "fmt_hms (Some eta) = Inr s3" using fmt_hms_ok by blast
  obtain s1 where s1: "fmt_hms (Some (Fin (min e d))) = Inr s1" using fmt_hms_ok by blast
  obtain s2 where s2: "fmt_hms (Some (Fin d)) = Inr s2" using fmt_hms_ok by blast
  obtain s4 where s4: "fmt_hms (Some (Fin (now - sw))) = Inr s4" using fmt_hms_ok by blast
  show ?thesis
    unfolding make_report_def
    by (simp add: secs Let_def py_min_Fin py_max_Fin f_sub_Fin pct_of_Fin avg eta s1 s2 s3 s4
        us_def[symmetric] rem_def[symmetric])
qed

lemma make_report_finite:
  fixes st :: est_state and d :: rat
  defines "e \<equiv> of_int (out_time_us st) / 1000000"
  assumes "\<not> float_overflows (out_time_us st)"
  shows "\<exists>r. make_report st sw now (Fin d) = Inr r
        \<and> done_sec r = Fin (min e d)
        \<and> remaining_sec r = Fin (max 0 (d - min e d))
        \<and> pct r = Fin (if 0 < d then min (min e d / d * 100) 100 else 0)
        \<and> mean_speed (speed_samples st) = Inr (avg_speed r)
        \<and> use_speed r = choose_speed (avg_speed r) (speed_inst st)
        \<and> eta_of (remaining_sec r) (use_speed r) = Inr (eta_sec r)
        \<and> fmt_hms (Some (done_sec r)) = Inr (video_hms r)
        \<and> fmt_hms (Some (eta_sec r)) = Inr (eta_hms r)"
proof -
  obtain r where r: "make_report st sw now (Fin d) = Inr r"
    using make_report_exists[OF assms(2)] by blast
  note f = make_report_fields[OF r]
  have dn: "done_sec r = Fin (min e d)" using f(2) by (simp add: py_min_Fin e_def)
  have rm: "remaining_sec r = Fin (max 0 (d - min e d))"
    using f(3) by (simp add: dn f_sub_Fin py_max_Fin)
  have pc: "pct r = Fin (if 0 < d then min (min e d / d * 100) 100 else 0)"
    using f(4) by (simp add: dn pct_of_Fin)
  show ?thesis using r dn rm pc f(5,6,7,9,11) by blast
qed

subsection \<open>One line\<close>

lemma handle_line_speed:
  assumes "parsed_speed bi raw = Some s"
  shows "handle_line bi sw d st now raw =
           Inr (st\<lparr>speed_inst := s,
                    speed_samples := evict (now - ETA_AVG_WINDOW_SECONDS)
                                       (speed_samples st @ [(now, s)])\<rparr>, [], False)"
  using assms
  by (auto simp: parsed_speed_def handle_line_def Let_def split: if_splits prod.splits)

lemma handle_line_not_speed:
  assumes "parsed_speed bi raw = None" "handle_line bi sw d st now raw = Inr (st', outs, brk)"
  shows "speed_samples st' = speed_samples st \<and> speed_inst st' = speed_inst st"
  using assms
  by (auto simp: parsed_speed_def handle_line_def Let_def
      split: if_splits prod.splits option.splits sum.splits)

lemma handle_line_break:
  assumes "handle_line bi sw d st now raw = Inr (st', outs, brk)"
  shows "brk = is_end raw"
  using assms
  by (auto simp: is_end_def handle_line_def Let_def
      split: if_splits prod.splits option.splits sum.splits)

text \<open>A line prints at most one report, and that report is \<open>make_report\<close> of the state before.\<close>

lemma handle_line_report:
  assumes "handle_line bi sw d st now raw = Inr (st', outs, brk)" "r \<in> set outs"
  shows "make_report st sw now d = Inr r \<and> outs = [r] \<and> out_time_us st' = out_time_us st
         \<and> speed_samples st' = speed_samples st"
  using assms
  by (auto simp: handle_line_def Let_def
      split: if_splits prod.splits option.splits sum.splits)


subsection \<open>The loop\<close>

lemma dropWhile_absorb:
  assumes "\<And>x. Q x \<Longrightarrow> P x"
  shows "dropWhile P (dropWhile Q xs @ ys) = dropWhile P (xs @ ys)"
  using assms by (induction xs) auto

lemma sorted_dropWhile_filter:
  assumes "sorted (map fst xs)"
  shows "dropWhile (\<lambda>p. fst p < (c::rat)) xs = filter (\<lambda>p. \<not> fst p < c) xs"
  using assms
proof (induction xs)
  case Nil
  then show ?case by simp
next
  case (Cons a xs)
  show ?case
  proof (cases "fst a < c")
    case True
    then show ?thesis using Cons by simp
  next
    case False
    then have "\<forall>p \<in> set xs. \<not> fst p < c" using Cons.prems by fastforce
    then have "filter (\<lambda>p. \<not> fst p < c) xs = xs" by (simp add: filter_id_conv)
    then show ?thesis using False by simp
  qed
qed

lemma received_times: "fst ` set (received bi lines) \<subseteq> fst ` set lines"
proof (induction lines)
  case Nil
  then show ?case by simp
next
  case (Cons a lines)
  obtain now raw where a: "a = (now, raw)" by (cases a)
  show ?case using Cons by (cases "parsed_speed bi raw") (auto simp: a)
qed

lemma sorted_received:
  assumes "sorted (map fst lines)"
  shows "sorted (map fst (received bi lines))"
  using assms
proof (induction lines)
  case Nil
  then show ?case by simp
next
  case (Cons a lines)
  obtain now raw where a: "a = (now, raw)" by (cases a)
  have tail: "sorted (map fst (received bi lines))" using Cons by simp
  have "\<forall>t \<in> fst ` set lines. now \<le> t" using Cons.prems by (auto simp: a)
  then have "\<forall>t \<in> fst ` set (received bi lines). now \<le> t"
    using received_times[of bi lines] by blast
  then show ?case using tail by (cases "parsed_speed bi raw") (auto simp: a)
qed

lemma handled_subset: "set (handled lines) \<subseteq> set lines"
  by (induction lines rule: handled.induct) auto

lemma sorted_handled:
  assumes "sorted (map fst lines)"
  shows "sorted (map fst (handled lines))"
  using assms
proof (induction lines rule: handled.induct)
  case 1
  then show ?case by simp
next
  case (2 now raw rest)
  then show ?case using handled_subset[of rest] by auto
qed


text \<open>The buffer after the loop, from any state whose buffer is a cut of what was received.\<close>

lemma consume_buffer:
  assumes "sorted (map fst lines)"
    and "\<forall>t \<in> fst ` set lines. c \<le> t - ETA_AVG_WINDOW_SECONDS"
    and "speed_samples st = dropWhile (\<lambda>p. fst p < c) R"
    and "consume bi sw d st lines = (None, st', outs)"
  shows "speed_samples st' =
           dropWhile (\<lambda>p. fst p < cutoff_after c (received bi (handled lines)))
             (R @ received bi (handled lines))"
  using assms
proof (induction lines arbitrary: st c R outs)
  case Nil
  then show ?case by (simp add: cutoff_after_def)
next
  case (Cons a lines)
  obtain now raw where a: "a = (now, raw)" by (cases a)
  from Cons.prems(4) obtain st1 out1 brk where
    h: "handle_line bi sw d st now raw = Inr (st1, out1, brk)"
    by (auto simp: a split: sum.splits)
  have brk: "brk = is_end raw" using h handle_line_break by blast
  have sorted_tl: "sorted (map fst lines)" using Cons.prems(1) by simp
  show ?case
  proof (cases "parsed_speed bi raw")
    case None
    have same: "speed_samples st1 = speed_samples st"
      using handle_line_not_speed[OF None h] by simp
    show ?thesis
    proof (cases brk)
      case True
      then have "st' = st1" using Cons.prems(4) h by (simp add: a)
      then show ?thesis using True brk same Cons.prems(3) None
        by (simp add: a cutoff_after_def)
    next
      case False
      then obtain outs2 where rest: "consume bi sw d st1 lines = (None, st', outs2)"
        using Cons.prems(4) h by (auto simp: a split: prod.splits)
      have bound: "\<forall>t \<in> fst ` set lines. c \<le> t - ETA_AVG_WINDOW_SECONDS"
        using Cons.prems(2) by simp
      have buf: "speed_samples st1 = dropWhile (\<lambda>p. fst p < c) R"
        using same Cons.prems(3) by simp
      from Cons.IH[OF sorted_tl bound buf rest]
      show ?thesis using False brk None by (simp add: a)
    qed
  next
    case (Some s)
    have st1: "st1 = st\<lparr>speed_inst := s,
                    speed_samples := evict (now - ETA_AVG_WINDOW_SECONDS)
                                       (speed_samples st @ [(now, s)])\<rparr>"
      and nb: "\<not> brk"
      using handle_line_speed[OF Some, of sw d st now] h by simp_all
    define c1 where "c1 = now - ETA_AVG_WINDOW_SECONDS"
    have cc1: "c \<le> c1" using Cons.prems(2) by (simp add: a c1_def)
    have buf: "speed_samples st1 = dropWhile (\<lambda>p. fst p < c1) (R @ [(now, s)])"
    proof -
      have "speed_samples st1 =
              dropWhile (\<lambda>p. fst p < c1) (dropWhile (\<lambda>p. fst p < c) R @ [(now, s)])"
        by (simp add: st1 evict_dropWhile Cons.prems(3) c1_def)
      also have "\<dots> = dropWhile (\<lambda>p. fst p < c1) (R @ [(now, s)])"
        using cc1 by (intro dropWhile_absorb) auto
      finally show ?thesis .
    qed
    have ne: "\<not> is_end raw" using nb brk by simp
    obtain outs2 where rest: "consume bi sw d st1 lines = (None, st', outs2)"
      using Cons.prems(4) h nb by (auto simp: a split: prod.splits)
    have bound: "\<forall>t \<in> fst ` set lines. c1 \<le> t - ETA_AVG_WINDOW_SECONDS"
      using Cons.prems(1) by (auto simp: a c1_def)
    have cut: "cutoff_after c (received bi (handled (a # lines)))
                 = cutoff_after c1 (received bi (handled lines))"
      using Some ne by (simp add: a cutoff_after_def c1_def)
    from Cons.IH[OF sorted_tl bound buf rest]
    show ?thesis using Some ne cut by (simp add: a)
  qed
qed



subsection \<open>Concrete lines\<close>

lemma g_speed: "parsed_speed dec_builtins ''speed=2.0x'' = Some (Fin 2)" by code_simp

lemma g_strip1: "strip ''out_time_us=60000000'' = ''out_time_us=60000000''" by code_simp
lemma g_split1: "split_once CHR ''='' ''out_time_us=60000000'' = (''out_time_us'', ''60000000'')" by code_simp
lemma g_int1: "py_int dec_builtins ''60000000'' = Some 60000000" by code_simp
lemma g_strip2: "strip ''progress=end'' = ''progress=end''" by code_simp
lemma g_split2: "split_once CHR ''='' ''progress=end'' = (''progress'', ''end'')" by code_simp

lemma handle_out_time_line:
  "handle_line dec_builtins sw d st now ''out_time_us=60000000'' =
     Inr (st\<lparr>out_time_us := 60000000\<rparr>, [], False)"
  by (simp add: handle_line_def g_strip1 g_split1 g_int1)

lemma handle_end_line:
  "handle_line bi sw d st now ''progress=end'' =
     (case make_report st sw now d of
        Inl e \<Rightarrow> Inl e
      | Inr r \<Rightarrow> Inr (st\<lparr>last_print := now\<rparr>, [r], True))"
  by (simp add: handle_line_def g_strip2 g_split2 split: sum.splits)

lemma g_hms60: "fmt_hms (Some (Fin 60)) = Inr ''00:01:00''" by code_simp
lemma g_hms30: "fmt_hms (Some (Fin 30)) = Inr ''00:00:30''" by code_simp

text \<open>
  The scenario of the specification: a 120 second source, then \<open>speed=2.0x\<close>,
  \<open>out_time_us=60000000\<close> and \<open>progress=end\<close>, at any arrival times.
\<close>

lemma scenario:
  "case consume dec_builtins sw (Fin 120) init_state
          [(t1, ''speed=2.0x''), (t2, ''out_time_us=60000000''), (t3, ''progress=end'')] of
     (e, st, outs) \<Rightarrow>
        e = None \<and> map done_sec outs = [Fin 60] \<and> map pct outs = [Fin 50]
      \<and> map use_speed outs = [Fin 2] \<and> map eta_sec outs = [Fin 30]
      \<and> map video_hms outs = [''00:01:00''] \<and> map eta_hms outs = [''00:00:30'']"
proof -
  define st2 where
    "st2 = \<lparr>last_print = 0, speed_samples = [(t1, Fin 2)], out_time_us = 60000000,
            speed_inst = Fin 2\<rparr>"
  have s1: "handle_line dec_builtins sw (Fin 120) init_state t1 ''speed=2.0x''
              = Inr (init_state\<lparr>speed_inst := Fin 2, speed_samples := [(t1, Fin 2)]\<rparr>, [], False)"
    using handle_line_speed[OF g_speed, of sw "Fin 120" init_state t1]
    by (simp add: init_state_def ETA_AVG_WINDOW_SECONDS_def)
  have s2: "handle_line dec_builtins sw (Fin 120)
               (init_state\<lparr>speed_inst := Fin 2, speed_samples := [(t1, Fin 2)]\<rparr>) t2
               ''out_time_us=60000000'' = Inr (st2, [], False)"
    by (simp add: handle_out_time_line st2_def init_state_def)
  obtain r where r: "make_report st2 sw t3 (Fin 120) = Inr r"
    and dn: "done_sec r = Fin (min (of_int (out_time_us st2) / 1000000) 120)"
    and rm: "remaining_sec r = Fin (max 0 (120 - min (of_int (out_time_us st2) / 1000000) 120))"
    and pc: "pct r = Fin (if (0::rat) < 120 then min (min (of_int (out_time_us st2) / 1000000) 120 / 120 * 100) 100 else 0)"
    and av: "mean_speed (speed_samples st2) = Inr (avg_speed r)"
    and us: "use_speed r = choose_speed (avg_speed r) (speed_inst st2)"
    and et: "eta_of (remaining_sec r) (use_speed r) = Inr (eta_sec r)"
    and h1: "fmt_hms (Some (done_sec r)) = Inr (video_hms r)"
    and h3: "fmt_hms (Some (eta_sec r)) = Inr (eta_hms r)"
    using make_report_finite[of st2 sw t3 120] by (auto simp: st2_def float_overflows_def)
  have dn': "done_sec r = Fin 60" using dn by (simp add: st2_def)
  have rm': "remaining_sec r = Fin 60" using rm by (simp add: st2_def)
  have pc': "pct r = Fin 50" using pc by (simp add: st2_def)
  have "mean_speed (speed_samples st2) = Inr (Some (Fin 2))"
    using mean_speed_finite[of "speed_samples st2" "[2]"] by (simp add: st2_def)
  then have av': "avg_speed r = Some (Fin 2)" using av by simp
  have us': "use_speed r = Fin 2" using us av' by (simp add: choose_speed_cases f_gt_def)
  have et': "eta_sec r = Fin 30" using et by (simp add: rm' us' eta_of_cases)
  have v: "video_hms r = ''00:01:00''" using h1 by (simp add: dn' g_hms60)
  have e: "eta_hms r = ''00:00:30''" using h3 by (simp add: et' g_hms30)
  have s3: "handle_line dec_builtins sw (Fin 120) st2 t3 ''progress=end''
              = Inr (st2\<lparr>last_print := t3\<rparr>, [r], True)"
    by (simp add: handle_end_line r)
  show ?thesis by (simp add: s1 s2 s3 dn' pc' us' et' v e)
qed

subsection \<open>What a report shows\<close>

text \<open>
  Claim C3.  Whenever a line prints a report, for a finite total duration \<open>d\<close> and
  with \<open>e\<close> the elapsed output time in seconds (\<open>out_time_us / 1000000\<close>):
  done is \<open>min e d\<close>, remaining is \<open>max 0 (d - done)\<close>, and percent is
  \<open>min (done / d * 100) 100\<close> when \<open>d > 0\<close> and 0 otherwise.  In the scenario of the
  specification the only report, printed at the terminal marker, shows done 60 s,
  50 percent and an ETA of 30 s.
\<close>

theorem report_done_remaining_percent:
  fixes d :: rat
  shows "(handle_line bi sw (Fin d) st now raw = Inr (st', outs, brk) \<longrightarrow>
            (\<forall>r \<in> set outs.
               done_sec r = Fin (min (of_int (out_time_us st) / 1000000) d)
             \<and> remaining_sec r = Fin (max 0 (d - min (of_int (out_time_us st) / 1000000) d))
             \<and> pct r = Fin (if 0 < d
                             then min (min (of_int (out_time_us st) / 1000000) d / d * 100) 100
                             else 0)))
       \<and> (case consume dec_builtins sw0 (Fin 120) init_state
                  [(t1, ''speed=2.0x''), (t2, ''out_time_us=60000000''), (t3, ''progress=end'')] of
            (e, st2, outs2) \<Rightarrow>
               e = None \<and> map done_sec outs2 = [Fin 60] \<and> map pct outs2 = [Fin 50]
             \<and> map use_speed outs2 = [Fin 2] \<and> map eta_sec outs2 = [Fin 30]
             \<and> map video_hms outs2 = [''00:01:00''] \<and> map eta_hms outs2 = [''00:00:30''])"
proof (intro conjI impI ballI)
  fix r
  assume h: "handle_line bi sw (Fin d) st now raw = Inr (st', outs, brk)" and r: "r \<in> set outs"
  have mr: "make_report st sw now (Fin d) = Inr r" using handle_line_report[OF h r] by simp
  note f = make_report_fields[OF mr]
  show dn: "done_sec r = Fin (min (of_int (out_time_us st) / 1000000) d)"
    using f(2) by (simp add: py_min_Fin)
  show "remaining_sec r = Fin (max 0 (d - min (of_int (out_time_us st) / 1000000) d))"
    using f(3) by (simp add: dn f_sub_Fin py_max_Fin)
  show "pct r = Fin (if 0 < d
                      then min (min (of_int (out_time_us st) / 1000000) d / d * 100) 100
                      else 0)"
    using f(4) by (simp add: dn pct_of_Fin)
next
  show "case consume dec_builtins sw0 (Fin 120) init_state
                  [(t1, ''speed=2.0x''), (t2, ''out_time_us=60000000''), (t3, ''progress=end'')] of
            (e, st2, outs2) \<Rightarrow>
               e = None \<and> map done_sec outs2 = [Fin 60] \<and> map pct outs2 = [Fin 50]
             \<and> map use_speed outs2 = [Fin 2] \<and> map eta_sec outs2 = [Fin 30]
             \<and> map video_hms outs2 = [''00:01:00''] \<and> map eta_hms outs2 = [''00:00:30'']"
    by (rule scenario)
qed

lemma g_end_report:
  "handle_line dec_builtins 0 (Fin 120)
     \<lparr>last_print = 0, speed_samples = [(1, Fin 2)], out_time_us = 60000000,
        speed_inst = Fin 2\<rparr> 2 ''progress=end'' =
   Inr (\<lparr>last_print = 2, speed_samples = [(1, Fin 2)], out_time_us = 60000000,
          speed_inst = Fin 2\<rparr>,
        [\<lparr>pct = Fin 50, done_sec = Fin 60, remaining_sec = Fin 60,
           avg_speed = Some (Fin 2), use_speed = Fin 2, eta_sec = Fin 30,
           elapsed_wall = Fin 2, video_hms = ''00:01:00'', total_hms = ''00:02:00'',
           eta_hms = ''00:00:30'', wall_hms = ''00:00:02''\<rparr>], True)"
  by code_simp

theorem report_done_remaining_percent_witness:
  "\<exists>st' r. handle_line dec_builtins 0 (Fin 120)
              \<lparr>last_print = 0, speed_samples = [(1, Fin 2)], out_time_us = 60000000,
                 speed_inst = Fin 2\<rparr> 2 ''progress=end'' = Inr (st', [r], True)
          \<and> done_sec r = Fin 60 \<and> remaining_sec r = Fin 60 \<and> pct r = Fin 50"
proof -
  let ?st = "\<lparr>last_print = 0, speed_samples = [(1, Fin 2)], out_time_us = 60000000,
                 speed_inst = Fin 2\<rparr>"
  obtain st' r where h: "handle_line dec_builtins 0 (Fin 120) ?st 2 ''progress=end''
                           = Inr (st', [r], True)"
    using g_end_report by blast
  have "done_sec r = Fin (min (of_int (out_time_us ?st) / 1000000) 120)
      \<and> remaining_sec r = Fin (max 0 (120 - min (of_int (out_time_us ?st) / 1000000) 120))
      \<and> pct r = Fin (if (0::rat) < 120
                      then min (min (of_int (out_time_us ?st) / 1000000) 120 / 120 * 100) 100
                      else 0)"
    using report_done_remaining_percent[of dec_builtins 0 120 ?st 2 "''progress=end''" st' "[r]" True]
      h by simp
  then have "done_sec r = Fin 60 \<and> remaining_sec r = Fin 60 \<and> pct r = Fin 50" by simp
  then show ?thesis using h by blast
qed


subsection \<open>The buffer and the latest sample after a stream\<close>

text \<open>
  When the clock readings of the stream do not decrease and the loop ends without an
  exception, the buffer holds exactly the samples received whose arrival time is not
  more than the window before the arrival of the most recent sample.
\<close>

lemma consume_window:
  assumes "sorted (map fst lines)" "consume bi sw d init_state lines = (None, st, outs)"
  shows "speed_samples st =
           filter (\<lambda>(t, s). cutoff_after 0 (received bi (handled lines)) \<le> t)
             (received bi (handled lines))"
proof -
  define c0 where "c0 = (if lines = [] then 0 else fst (hd lines) - ETA_AVG_WINDOW_SECONDS)"
  let ?R = "received bi (handled lines)"
  have bound: "\<forall>t \<in> fst ` set lines. c0 \<le> t - ETA_AVG_WINDOW_SECONDS"
    using assms(1) by (cases lines) (auto simp: c0_def)
  have init: "speed_samples init_state = dropWhile (\<lambda>p. fst p < c0) []"
    by (simp add: init_state_def)
  have buf: "speed_samples st = dropWhile (\<lambda>p. fst p < cutoff_after c0 ?R) ?R"
    using consume_buffer[OF assms(1) bound init assms(2)] by simp
  have srt: "sorted (map fst ?R)" using assms(1) sorted_handled sorted_received by blast
  have "speed_samples st = filter (\<lambda>p. \<not> fst p < cutoff_after c0 ?R) ?R"
    using buf sorted_dropWhile_filter[OF srt] by simp
  also have "\<dots> = filter (\<lambda>(t, s). cutoff_after 0 ?R \<le> t) ?R"
  proof (cases "?R = []")
    case True
    then show ?thesis by simp
  next
    case False
    then have "cutoff_after c0 ?R = cutoff_after 0 ?R" by (simp add: cutoff_after_def)
    then show ?thesis by (simp add: not_less case_prod_unfold)
  qed
  finally show ?thesis .
qed


subsection \<open>Effective speed and ETA\<close>








lemma g_three_samples:
  "received dec_builtins
     (handled [(0, ''speed=1.0x''), (30, ''speed=2.0x''), (70, ''speed=3x'')]) =
   [(0, Fin 1), (30, Fin 2), (70, Fin 3)]"
  by code_simp

lemma g_three_consume:
  "consume dec_builtins 0 (Fin 120) init_state
     [(0, ''speed=1.0x''), (30, ''speed=2.0x''), (70, ''speed=3x'')] =
   (None,
    \<lparr>last_print = 0, speed_samples = [(30, Fin 2), (70, Fin 3)], out_time_us = 0,
       speed_inst = Fin 3\<rparr>, [])"
  by code_simp


subsection \<open>The trailing window\<close>

text \<open>
  Claim C5 as stated fails.  Samples are evicted only when a speed sample arrives, with
  the cutoff taken from that arrival time; a report evicts nothing.  Here a sample
  arrives at time 0 and the next report is printed at time 100: the sample is 100
  seconds old, nothing received lies within the 60 seconds before the report, and yet
  the average of the report is that sample.
\<close>

theorem stale_sample_in_mean:
  "consume dec_builtins 0 (Fin 120) init_state
     [(0, ''speed=2.0x''), (100, ''progress=continue'')] =
   (None,
    \<lparr>last_print = 100, speed_samples = [(0, Fin 2)], out_time_us = 0, speed_inst = Fin 2\<rparr>,
    [\<lparr>pct = Fin 0, done_sec = Fin 0, remaining_sec = Fin 120,
       avg_speed = Some (Fin 2), use_speed = Fin 2, eta_sec = Fin 60,
       elapsed_wall = Fin 100, video_hms = ''00:00:00'', total_hms = ''00:02:00'',
       eta_hms = ''00:01:00'', wall_hms = ''00:01:40''\<rparr>])
   \<and> (0::rat) < 100 - ETA_AVG_WINDOW_SECONDS
   \<and> filter (\<lambda>(t, s). 100 - ETA_AVG_WINDOW_SECONDS \<le> t)
        (received dec_builtins [(0, ''speed=2.0x''), (100, ''progress=continue'')]) = []"
  by code_simp

text \<open>
  Claim C5, amended.  When the clock readings of the stream do not decrease and the loop
  ends without an exception, the buffer after the stream holds exactly the samples
  received whose arrival time is not more than the window (60 seconds) before the
  arrival of the most recent sample, in order of arrival; and the average of a report
  is computed over the buffer as it stands when the report is printed.  The window is
  measured from the last sample, not from the report.
\<close>

theorem window_from_last_sample:
  assumes "sorted (map fst lines)" "consume bi sw d init_state lines = (None, st, outs)"
  shows "speed_samples st =
           filter (\<lambda>(t, s). cutoff_after 0 (received bi (handled lines)) \<le> t)
             (received bi (handled lines))
       \<and> (handle_line bi sw d st0 now raw = Inr (st1, outs1, brk) \<longrightarrow>
            (\<forall>r \<in> set outs1. mean_speed (speed_samples st0) = Inr (avg_speed r)))"
proof (intro conjI impI ballI)
  show "speed_samples st =
           filter (\<lambda>(t, s). cutoff_after 0 (received bi (handled lines)) \<le> t)
             (received bi (handled lines))"
    using assms by (rule consume_window)
next
  fix r
  assume "handle_line bi sw d st0 now raw = Inr (st1, outs1, brk)" "r \<in> set outs1"
  then have "make_report st0 sw now d = Inr r" using handle_line_report by blast
  then show "mean_speed (speed_samples st0) = Inr (avg_speed r)"
    by (rule make_report_fields(5))
qed

text \<open>The amended claim C5 on a stream of three samples: the first one is evicted.\<close>

theorem window_from_last_sample_witness:
  "sorted (map fst [(0::rat, ''speed=1.0x''), (30, ''speed=2.0x''), (70, ''speed=3x'')])
   \<and> (\<exists>st outs. consume dec_builtins 0 (Fin 120) init_state
                    [(0, ''speed=1.0x''), (30, ''speed=2.0x''), (70, ''speed=3x'')]
                    = (None, st, outs)
          \<and> speed_samples st = [(30, Fin 2), (70, Fin 3)])"
proof -
  define L :: "(rat \<times> string) list" where
    "L = [(0, ''speed=1.0x''), (30, ''speed=2.0x''), (70, ''speed=3x'')]"
  have s: "sorted (map fst L)" by (simp add: L_def)
  have g: "received dec_builtins (handled L) = [(0, Fin 1), (30, Fin 2), (70, Fin 3)]"
    unfolding L_def by (rule g_three_samples)
  obtain st outs where c: "consume dec_builtins 0 (Fin 120) init_state L = (None, st, outs)"
    unfolding L_def using g_three_consume by blast
  have "speed_samples st =
          filter (\<lambda>(t, s). cutoff_after 0 (received dec_builtins (handled L)) \<le> t)
            (received dec_builtins (handled L))"
    using window_from_last_sample[OF s c] by (rule conjunct1)
  then have "speed_samples st = [(30, Fin 2), (70, Fin 3)]"
    unfolding g by (simp add: cutoff_after_def ETA_AVG_WINDOW_SECONDS_def)
  then show ?thesis using s c unfolding L_def by blast
qed


section \<open>Properties of the batch controller\<close>

subsection \<open>Traces\<close>

lemma spawned_append: "spawned (xs @ ys) = spawned xs @ spawned ys"
  by (induction xs rule: spawned.induct) auto

lemma probed_append: "probed (xs @ ys) = probed xs @ probed ys"
  by (induction xs rule: probed.induct) auto

lemma spawned_progress: "spawned (map Print_progress reps) = []"
  by (induction reps) auto

lemma probed_progress: "probed (map Print_progress reps) = []"
  by (induction reps) auto

lemma fmt_hms_error: "fmt_hms x = Inl e \<Longrightarrow> e = ValueError"
proof -
  assume a: "fmt_hms x = Inl e"
  then have "x = Some NaN" using fmt_hms_raises_iff[of x] by blast
  then show ?thesis using a by (simp add: fmt_hms_def)
qed

text \<open>
  An encode either stops before the process is started (the duration cannot be
  formatted) or starts exactly the command it was given; it never probes.
\<close>

lemma encode_with_eta_trace:
  assumes "encode_with_eta bi sys w out cmd d = (r, evs, w1)"
  shows "probed evs = []
       \<and> (if \<exists>e. fmt_hms (Some d) = Inl e
           then r = Some ValueError \<and> evs = [] \<and> w1 = w
           else spawned evs = [cmd])"
proof (cases "fmt_hms (Some d)")
  case (Inl e)
  then have "e = ValueError" using fmt_hms_error by blast
  then show ?thesis using assms Inl by (simp add: encode_with_eta_def)
next
  case (Inr s)
  then show ?thesis using assms
    by (auto simp: encode_with_eta_def Let_def spawned_append probed_append
        spawned_progress probed_progress split: prod.splits option.splits if_splits)
qed

lemma encode_runtime_error_spawned:
  assumes "encode_with_eta bi sys w out cmd d = (Some (RuntimeError m), evs, w1)"
  shows "spawned evs = [cmd] \<and> (\<forall>e. fmt_hms (Some d) \<noteq> Inl e)"
  using encode_with_eta_trace[OF assms] by (auto split: if_splits)

subsection \<open>Failure of the hardware encode\<close>

text \<open>
  A file in hardware mode whose probe succeeds, that is below 4K and has no hardware
  output yet, and whose hardware encode ends in \<open>RuntimeError\<close>: the fallback is skipped
  when the software-master output exists, and otherwise attempted exactly once, its
  outcome being the outcome of the file.  An exception ends the loop.
\<close>

lemma process_video_hw_failure:
  assumes probe: "ffprobe_info bi (run_ffprobe sys w (path_join INPUT_DIR name)) = Inr (d, vw, vh, fps)"
    and small: "\<not> (vw \<ge> 3840 \<or> vh \<ge> 2160)"
    and fresh: "\<not> path_exists sys w (out_qsv name)"
    and hw: "encode_with_eta bi sys w (out_qsv name)
               (build_cmd_intel_qsv (path_join INPUT_DIR name) (out_qsv name) vw vh) d
             = (Some (RuntimeError msg), evs1, w1)"
    and fb: "encode_with_eta bi sys w1 (out_cpu name)
               (build_cmd_cpu_master (path_join INPUT_DIR name) (out_cpu name) vw vh) d
             = (r2, evs2, w2)"
  shows "(case process_video bi sys ''intel_qsv'' w name of
            (r, evs, w') \<Rightarrow>
              (if path_exists sys w1 (out_cpu name)
               then r = None \<and> w' = w1
                  \<and> spawned evs =
                      [build_cmd_intel_qsv (path_join INPUT_DIR name) (out_qsv name) vw vh]
               else r = r2 \<and> w' = w2
                  \<and> spawned evs =
                      [build_cmd_intel_qsv (path_join INPUT_DIR name) (out_qsv name) vw vh,
                       build_cmd_cpu_master (path_join INPUT_DIR name) (out_cpu name) vw vh])
            \<and> probed evs = [path_join INPUT_DIR name]
            \<and> batch_loop bi sys ''intel_qsv'' w (name # rest) =
                (case r of
                   Some e \<Rightarrow> (Some e, evs, w')
                 | None \<Rightarrow>
                     (case batch_loop bi sys ''intel_qsv'' w' rest of
                        (r', evs', w'') \<Rightarrow> (r', evs @ evs', w''))))"
proof -
  have s1: "spawned evs1 = [build_cmd_intel_qsv (path_join INPUT_DIR name) (out_qsv name) vw vh]"
    and ok: "\<forall>e. fmt_hms (Some d) \<noteq> Inl e"
    using encode_runtime_error_spawned[OF hw] by simp_all
  have p1: "probed evs1 = []" using encode_with_eta_trace[OF hw] by simp
  have s2: "spawned evs2 = [build_cmd_cpu_master (path_join INPUT_DIR name) (out_cpu name) vw vh]"
    and p2: "probed evs2 = []"
    using encode_with_eta_trace[OF fb] ok by simp_all
  show ?thesis
  proof (cases "path_exists sys w1 (out_cpu name)")
    case True
    have pv: "process_video bi sys ''intel_qsv'' w name =
            (None, [Run_ffprobe (path_join INPUT_DIR name), Print_encoding name vw vh ''intel_qsv'']
                   @ evs1 @ [Print_qsv_failed msg, Print_skip_fallback (path_name (out_cpu name))], w1)"
      using probe small fresh hw True by (simp add: process_video_def Let_def)
    show ?thesis using True s1 p1
      by (simp add: pv spawned_append probed_append split: prod.splits)
  next
    case False
    have pv: "process_video bi sys ''intel_qsv'' w name =
            (r2, [Run_ffprobe (path_join INPUT_DIR name), Print_encoding name vw vh ''intel_qsv'']
                   @ evs1 @ [Print_qsv_failed msg] @ evs2, w2)"
      using probe small fresh hw fb False by (simp add: process_video_def Let_def)
    show ?thesis using False s1 p1 s2 p2
      by (simp add: pv spawned_append probed_append split: option.splits prod.splits)
  qed
qed


subsection \<open>Probe failure and the shape of \<open>main\<close>\<close>

lemma process_video_probe_failure:
  assumes "ffprobe_info bi (run_ffprobe sys w (path_join INPUT_DIR name)) = Inl e"
  shows "process_video bi sys mode w name = (Some e, [Run_ffprobe (path_join INPUT_DIR name)], w)"
  using assms by (simp add: process_video_def Let_def)

lemma probed_queries: "probed (qsv_queries sys w) = []"
  by (simp add: qsv_queries_def)

lemma spawned_queries: "spawned (qsv_queries sys w) = []"
  by (simp add: qsv_queries_def)

text \<open>\<open>main\<close> once the tools, the folder and at least one video are there.\<close>

lemma main_of_loop:
  assumes "ffmpeg_exists sys w" "input_dir_exists sys w" "videos_of (iterdir sys w) \<noteq> []"
    and "batch_loop bi sys (if intel_qsv_available sys w then ''intel_qsv'' else ''cpu_master'') w
           (videos_of (iterdir sys w)) = (r, evs, w1)"
  shows "main bi sys w =
           (r, qsv_queries sys w
               @ (if intel_qsv_available sys w then [] else [Print_warn_no_qsv])
               @ evs @ (if r = None then [Print_batch_complete] else []), w1)"
  using assms by (cases r) (auto simp: main_def Let_def MODE_def)

subsection \<open>Concrete runs\<close>

lemma g_videos: "videos_of two_files = [''a.mp4'', ''b.mkv'']" by code_simp
lemma g_probe: "ffprobe_info dec_builtins hd_probe = Inr (Fin 120, 1920, 1080, Fin 30)" by code_simp
lemma g_probe_fail: "ffprobe_info dec_builtins Exit_nonzero = Inl CalledProcessError" by code_simp
lemma g_hms120: "fmt_hms (Some (Fin 120)) = Inr ''00:02:00''" by code_simp
lemma g_has_h264: "str_contains ''h264_qsv'' qsv_listing" by code_simp
lemma g_has_hevc: "str_contains ''hevc_qsv'' hevc_listing" by code_simp
lemma g_str1: "str_int 1 = ''1''" by code_simp
lemma g_a_path: "path_join INPUT_DIR ''a.mp4'' = ''/media/daniel/Aether OS/a.mp4''" by code_simp

lemma demo_encode_fails:
  "encode_with_eta bi (demo_sys en l pr (\<lambda>c. failing_proc)) w out cmd (Fin 120) =
     (Some (RuntimeError failure_message),
      [Print_duration ''00:02:00'' (path_name out), Run_ffmpeg cmd], w)"
  by (simp add: encode_with_eta_def demo_sys_def failing_proc_def g_hms120 g_str1
      failure_message_def)

subsection \<open>Fallback\<close>

text \<open>
  Claim C1, amended.  For a file processed in hardware mode whose encode attempt fails
  (the engine exits non-zero, a \<open>RuntimeError\<close>): if the software-master output exists
  the file is skipped and the batch goes on; otherwise exactly one software-master
  attempt is made for that file and there is no third attempt.  If that attempt fails
  too, nothing catches the exception: it leaves the loop, so the batch ends there and
  the remaining files are not processed.
\<close>

theorem fallback_once:
  assumes "ffprobe_info bi (run_ffprobe sys w (path_join INPUT_DIR name)) = Inr (d, vw, vh, fps)"
    and "\<not> (vw \<ge> 3840 \<or> vh \<ge> 2160)"
    and "\<not> path_exists sys w (out_qsv name)"
    and "encode_with_eta bi sys w (out_qsv name)
               (build_cmd_intel_qsv (path_join INPUT_DIR name) (out_qsv name) vw vh) d
             = (Some (RuntimeError msg), evs1, w1)"
    and "encode_with_eta bi sys w1 (out_cpu name)
               (build_cmd_cpu_master (path_join INPUT_DIR name) (out_cpu name) vw vh) d
             = (r2, evs2, w2)"
  shows "(case process_video bi sys ''intel_qsv'' w name of
            (r, evs, w') \<Rightarrow>
              (if path_exists sys w1 (out_cpu name)
               then r = None \<and> w' = w1
                  \<and> spawned evs =
                      [build_cmd_intel_qsv (path_join INPUT_DIR name) (out_qsv name) vw vh]
               else r = r2 \<and> w' = w2
                  \<and> spawned evs =
                      [build_cmd_intel_qsv (path_join INPUT_DIR name) (out_qsv name) vw vh,
                       build_cmd_cpu_master (path_join INPUT_DIR name) (out_cpu name) vw vh])
            \<and> probed evs = [path_join INPUT_DIR name]
            \<and> batch_loop bi sys ''intel_qsv'' w (name # rest) =
                (case r of
                   Some e \<Rightarrow> (Some e, evs, w')
                 | None \<Rightarrow>
                     (case batch_loop bi sys ''intel_qsv'' w' rest of
                        (r', evs', w'') \<Rightarrow> (r', evs @ evs', w''))))"
  using assms by (rule process_video_hw_failure)

lemma failing_machine_first:
  "case process_video dec_builtins failing_machine ''intel_qsv'' [] ''a.mp4'' of
     (r, evs, w') \<Rightarrow>
        r = Some (RuntimeError failure_message) \<and> w' = []
      \<and> spawned evs =
           [build_cmd_intel_qsv (path_join INPUT_DIR ''a.mp4'') (out_qsv ''a.mp4'') 1920 1080,
            build_cmd_cpu_master (path_join INPUT_DIR ''a.mp4'') (out_cpu ''a.mp4'') 1920 1080]
      \<and> probed evs = [path_join INPUT_DIR ''a.mp4'']
      \<and> batch_loop dec_builtins failing_machine ''intel_qsv'' [] [''a.mp4'', ''b.mkv'']
           = (r, evs, w')"
proof -
  have a: "ffprobe_info dec_builtins (run_ffprobe failing_machine [] (path_join INPUT_DIR ''a.mp4''))
             = Inr (Fin 120, 1920, 1080, Fin 30)"
    by (simp add: failing_machine_def demo_sys_def g_probe)
  have b: "\<not> ((1920::int) \<ge> 3840 \<or> (1080::int) \<ge> 2160)" by simp
  have c: "\<not> path_exists failing_machine [] (out_qsv ''a.mp4'')"
    by (simp add: failing_machine_def demo_sys_def)
  have d: "encode_with_eta dec_builtins failing_machine [] (out_qsv ''a.mp4'')
               (build_cmd_intel_qsv (path_join INPUT_DIR ''a.mp4'') (out_qsv ''a.mp4'') 1920 1080)
               (Fin 120)
             = (Some (RuntimeError failure_message),
                [Print_duration ''00:02:00'' (path_name (out_qsv ''a.mp4'')),
                 Run_ffmpeg (build_cmd_intel_qsv (path_join INPUT_DIR ''a.mp4'')
                               (out_qsv ''a.mp4'') 1920 1080)], [])"
    unfolding failing_machine_def by (rule demo_encode_fails)
  have e: "encode_with_eta dec_builtins failing_machine [] (out_cpu ''a.mp4'')
               (build_cmd_cpu_master (path_join INPUT_DIR ''a.mp4'') (out_cpu ''a.mp4'') 1920 1080)
               (Fin 120)
             = (Some (RuntimeError failure_message),
                [Print_duration ''00:02:00'' (path_name (out_cpu ''a.mp4'')),
                 Run_ffmpeg (build_cmd_cpu_master (path_join INPUT_DIR ''a.mp4'')
                               (out_cpu ''a.mp4'') 1920 1080)], [])"
    unfolding failing_machine_def by (rule demo_encode_fails)
  have f: "\<not> path_exists failing_machine [] (out_cpu ''a.mp4'')"
    by (simp add: failing_machine_def demo_sys_def)
  show ?thesis
    using process_video_hw_failure[OF a b c d e, of "[''b.mkv'']"] f
    by (auto split: prod.splits)
qed


lemma failing_machine_ready:
  "ffmpeg_exists failing_machine [] \<and> input_dir_exists failing_machine []
   \<and> videos_of (iterdir failing_machine []) = [''a.mp4'', ''b.mkv'']
   \<and> intel_qsv_available failing_machine []"
  by (simp add: failing_machine_def demo_sys_def ffmpeg_exists_def g_videos
      intel_qsv_available_def ffmpeg_has_encoder_def g_has_h264)

text \<open>
  Claim C1 as stated fails in its last part.  With two input files and an engine that
  fails on every encode, the hardware attempt and the fallback attempt of the first file
  fail, \<open>main\<close> ends with the \<open>RuntimeError\<close> of the fallback, and the second file is
  never probed: the batch does not proceed to the next file.
\<close>

theorem second_failure_aborts_batch:
  "videos_of (iterdir failing_machine []) = [''a.mp4'', ''b.mkv'']
   \<and> fst (main dec_builtins failing_machine []) = Some (RuntimeError failure_message)
   \<and> probed (fst (snd (main dec_builtins failing_machine [])))
       = [''/media/daniel/Aether OS/a.mp4'']"
proof -
  obtain r evs w' where
    pv: "process_video dec_builtins failing_machine ''intel_qsv'' [] ''a.mp4'' = (r, evs, w')"
    by (cases "process_video dec_builtins failing_machine ''intel_qsv'' [] ''a.mp4''") auto
  have r: "r = Some (RuntimeError failure_message)"
    and p: "probed evs = [path_join INPUT_DIR ''a.mp4'']"
    and l: "batch_loop dec_builtins failing_machine ''intel_qsv'' [] [''a.mp4'', ''b.mkv'']
              = (r, evs, w')"
    using failing_machine_first unfolding pv by simp_all
  have "main dec_builtins failing_machine [] =
          (r, qsv_queries failing_machine [] @ [] @ evs @ [], w')"
    using main_of_loop[of failing_machine "[]" dec_builtins r evs w'] failing_machine_ready l r
    by simp
  then show ?thesis
    using failing_machine_ready r p by (simp add: probed_append probed_queries g_a_path)
qed

text \<open>The amended claim C1 at the first file of that run.\<close>

theorem fallback_once_witness:
  "ffprobe_info dec_builtins (run_ffprobe failing_machine [] (path_join INPUT_DIR ''a.mp4''))
     = Inr (Fin 120, 1920, 1080, Fin 30)
   \<and> \<not> ((1920::int) \<ge> 3840 \<or> (1080::int) \<ge> 2160)
   \<and> \<not> path_exists failing_machine [] (out_qsv ''a.mp4'')
   \<and> fst (encode_with_eta dec_builtins failing_machine [] (out_qsv ''a.mp4'')
            (build_cmd_intel_qsv (path_join INPUT_DIR ''a.mp4'') (out_qsv ''a.mp4'') 1920 1080)
            (Fin 120)) = Some (RuntimeError failure_message)
   \<and> \<not> path_exists failing_machine [] (out_cpu ''a.mp4'')
   \<and> (case process_video dec_builtins failing_machine ''intel_qsv'' [] ''a.mp4'' of
         (r, evs, w') \<Rightarrow>
            r = Some (RuntimeError failure_message)
          \<and> spawned evs =
               [build_cmd_intel_qsv (path_join INPUT_DIR ''a.mp4'') (out_qsv ''a.mp4'') 1920 1080,
                build_cmd_cpu_master (path_join INPUT_DIR ''a.mp4'') (out_cpu ''a.mp4'') 1920 1080]
          \<and> batch_loop dec_builtins failing_machine ''intel_qsv'' [] [''a.mp4'', ''b.mkv'']
               = (r, evs, w'))"
proof -
  have a: "ffprobe_info dec_builtins (run_ffprobe failing_machine [] (path_join INPUT_DIR ''a.mp4''))
             = Inr (Fin 120, 1920, 1080, Fin 30)"
    by (simp add: failing_machine_def demo_sys_def g_probe)
  have b: "\<not> ((1920::int) \<ge> 3840 \<or> (1080::int) \<ge> 2160)" by simp
  have c: "\<not> path_exists failing_machine [] (out_qsv ''a.mp4'')"
    by (simp add: failing_machine_def demo_sys_def)
  have d: "encode_with_eta dec_builtins failing_machine [] (out_qsv ''a.mp4'')
               (build_cmd_intel_qsv (path_join INPUT_DIR ''a.mp4'') (out_qsv ''a.mp4'') 1920 1080)
               (Fin 120)
             = (Some (RuntimeError failure_message),
                [Print_duration ''00:02:00'' (path_name (out_qsv ''a.mp4'')),
                 Run_ffmpeg (build_cmd_intel_qsv (path_join INPUT_DIR ''a.mp4'')
                               (out_qsv ''a.mp4'') 1920 1080)], [])"
    unfolding failing_machine_def by (rule demo_encode_fails)
  have e: "encode_with_eta dec_builtins failing_machine [] (out_cpu ''a.mp4'')
               (build_cmd_cpu_master (path_join INPUT_DIR ''a.mp4'') (out_cpu ''a.mp4'') 1920 1080)
               (Fin 120)
             = (Some (RuntimeError failure_message),
                [Print_duration ''00:02:00'' (path_name (out_cpu ''a.mp4'')),
                 Run_ffmpeg (build_cmd_cpu_master (path_join INPUT_DIR ''a.mp4'')
                               (out_cpu ''a.mp4'') 1920 1080)], [])"
    unfolding failing_machine_def by (rule demo_encode_fails)
  have f: "\<not> path_exists failing_machine [] (out_cpu ''a.mp4'')"
    by (simp add: failing_machine_def demo_sys_def)
  have "case process_video dec_builtins failing_machine ''intel_qsv'' [] ''a.mp4'' of
         (r, evs, w') \<Rightarrow>
            r = Some (RuntimeError failure_message)
          \<and> spawned evs =
               [build_cmd_intel_qsv (path_join INPUT_DIR ''a.mp4'') (out_qsv ''a.mp4'') 1920 1080,
                build_cmd_cpu_master (path_join INPUT_DIR ''a.mp4'') (out_cpu ''a.mp4'') 1920 1080]
          \<and> batch_loop dec_builtins failing_machine ''intel_qsv'' [] [''a.mp4'', ''b.mkv'']
               = (r, evs, w')"
    using fallback_once[OF a b c d e, of "[''b.mkv'']"] f by (auto split: prod.splits)
  then show ?thesis using a b c d f by simp
qed

subsection \<open>Probe failure\<close>

text \<open>
  Claim C2, amended.  A probe failure (the tool is unavailable, exits non-zero, prints no
  JSON, or a required field is missing) is raised by \<open>ffprobe_info\<close> and nothing in
  \<open>main\<close> catches it: the file is probed once and not retried, and the exception ends the
  loop, so no later file is processed and the batch aborts with that error.
\<close>

theorem probe_failure_aborts:
  assumes "ffprobe_info bi (run_ffprobe sys w (path_join INPUT_DIR name)) = Inl e"
  shows "process_video bi sys mode w name = (Some e, [Run_ffprobe (path_join INPUT_DIR name)], w)
       \<and> batch_loop bi sys mode w (name # rest)
           = (Some e, [Run_ffprobe (path_join INPUT_DIR name)], w)
       \<and> ffprobe_info bi Tool_unavailable = Inl (FileNotFoundError ''ffprobe'')
       \<and> ffprobe_info bi Exit_nonzero = Inl CalledProcessError
       \<and> ffprobe_info bi Not_json = Inl JSONDecodeError
       \<and> (map_of kvs ''format'' = None \<longrightarrow> ffprobe_info bi (Document (JObj kvs)) = Inl KeyError)"
  using process_video_probe_failure[OF assms]
  by (simp add: ffprobe_info_def)

lemma probe_fail_machine_ready:
  "ffmpeg_exists probe_fail_machine [] \<and> input_dir_exists probe_fail_machine []
   \<and> videos_of (iterdir probe_fail_machine []) = [''a.mp4'', ''b.mkv'']
   \<and> intel_qsv_available probe_fail_machine []
   \<and> ffprobe_info dec_builtins
        (run_ffprobe probe_fail_machine [] (path_join INPUT_DIR ''a.mp4'')) = Inl CalledProcessError"
  by (simp add: probe_fail_machine_def demo_sys_def ffmpeg_exists_def g_videos
      intel_qsv_available_def ffmpeg_has_encoder_def g_has_h264 g_a_path first_fails_def
      g_probe_fail)

text \<open>
  Claim C2 as stated fails.  With two input files where probing the first one exits
  non-zero, \<open>main\<close> ends with \<open>CalledProcessError\<close> after that single probe: the second
  file is never probed and nothing is encoded.
\<close>

theorem probe_failure_aborts_batch:
  "videos_of (iterdir probe_fail_machine []) = [''a.mp4'', ''b.mkv'']
   \<and> main dec_builtins probe_fail_machine [] =
       (Some CalledProcessError,
        [Query_encoders ''hevc_qsv'', Query_encoders ''h264_qsv'',
         Run_ffprobe ''/media/daniel/Aether OS/a.mp4''], [])"
proof -
  have a: "ffprobe_info dec_builtins
     (run_ffprobe probe_fail_machine [] (path_join INPUT_DIR ''a.mp4'')) = Inl CalledProcessError"
    using probe_fail_machine_ready by simp
  have pv: "process_video dec_builtins probe_fail_machine ''intel_qsv'' [] ''a.mp4''
              = (Some CalledProcessError, [Run_ffprobe (path_join INPUT_DIR ''a.mp4'')], [])"
    by (rule process_video_probe_failure[OF a])
  then have l: "batch_loop dec_builtins probe_fail_machine ''intel_qsv'' [] [''a.mp4'', ''b.mkv'']
              = (Some CalledProcessError, [Run_ffprobe (path_join INPUT_DIR ''a.mp4'')], [])"
    by simp
  have q: "qsv_queries probe_fail_machine []
             = [Query_encoders ''hevc_qsv'', Query_encoders ''h264_qsv'']"
    by code_simp
  show ?thesis
    using main_of_loop[of probe_fail_machine "[]" dec_builtins "Some CalledProcessError"
        "[Run_ffprobe (path_join INPUT_DIR ''a.mp4'')]" "[]"] probe_fail_machine_ready l
    by (simp add: q g_a_path)
qed

text \<open>The amended claim C2 on that machine, and a document without the \<open>format\<close> field.\<close>

theorem probe_failure_aborts_witness:
  "ffprobe_info dec_builtins
     (run_ffprobe probe_fail_machine [] (path_join INPUT_DIR ''a.mp4'')) = Inl CalledProcessError
   \<and> batch_loop dec_builtins probe_fail_machine ''intel_qsv'' [] [''a.mp4'', ''b.mkv'']
       = (Some CalledProcessError, [Run_ffprobe (path_join INPUT_DIR ''a.mp4'')], [])
   \<and> map_of [(''streams'', JArr [])] ''format'' = None
   \<and> ffprobe_info dec_builtins (Document (JObj [(''streams'', JArr [])])) = Inl KeyError"
proof -
  have a: "ffprobe_info dec_builtins
     (run_ffprobe probe_fail_machine [] (path_join INPUT_DIR ''a.mp4'')) = Inl CalledProcessError"
    using probe_fail_machine_ready by simp
  have b: "map_of [(''streams'', JArr [])] ''format'' = None" by simp
  show ?thesis
    using a b probe_failure_aborts[OF a, of "''intel_qsv''" "[''b.mkv'']" "[(''streams'', JArr [])]"]
    by simp
qed

subsection \<open>Where the commands come from\<close>

lemma cpu_cmd_encoder:
  "build_cmd_cpu_master i out vw vh ! 10 = ''-c:v'' \<and> build_cmd_cpu_master i out vw vh ! 11 = ''libx265''"
  by (simp add: build_cmd_cpu_master_def Let_def)

lemma qsv_cmd_encoder:
  "build_cmd_intel_qsv i out vw vh ! 10 = ''-c:v'' \<and> build_cmd_intel_qsv i out vw vh ! 11 = ''h264_qsv''"
  by (simp add: build_cmd_intel_qsv_def Let_def)

lemma encode_spawned_subset:
  assumes "encode_with_eta bi sys w out cmd d = (r, evs, w1)"
  shows "set (spawned evs) \<subseteq> {cmd}"
  using encode_with_eta_trace[OF assms] by (auto split: if_splits)

text \<open>Every command a file starts comes from one of the two builders, by the mode.\<close>

lemma process_video_spawned:
  assumes "process_video bi sys mode w name = (r, evs, w1)" "cmd \<in> set (spawned evs)"
  shows "(mode = ''intel_qsv'' \<and>
            (\<exists>vw vh. cmd = build_cmd_intel_qsv (path_join INPUT_DIR name) (out_qsv name) vw vh))
       \<or> (\<exists>vw vh. cmd = build_cmd_cpu_master (path_join INPUT_DIR name) (out_cpu name) vw vh)"
proof (cases "ffprobe_info bi (run_ffprobe sys w (path_join INPUT_DIR name))")
  case (Inl e)
  then show ?thesis using assms by (auto simp: process_video_def Let_def)
next
  case (Inr p)
  obtain d vw vh fps where p: "p = (d, vw, vh, fps)" by (cases p) auto
  let ?video = "path_join INPUT_DIR name"
  show ?thesis
  proof (cases "mode = ''intel_qsv''")
    case True
    obtain r1 evs1 wa where hw: "encode_with_eta bi sys w (out_qsv name)
               (build_cmd_intel_qsv ?video (out_qsv name) vw vh) d = (r1, evs1, wa)"
      by (cases "encode_with_eta bi sys w (out_qsv name)
               (build_cmd_intel_qsv ?video (out_qsv name) vw vh) d") auto
    obtain r2 evs2 wb where fb: "encode_with_eta bi sys wa (out_cpu name)
               (build_cmd_cpu_master ?video (out_cpu name) vw vh) d = (r2, evs2, wb)"
      by (cases "encode_with_eta bi sys wa (out_cpu name)
               (build_cmd_cpu_master ?video (out_cpu name) vw vh) d") auto
    have s1: "set (spawned evs1) \<subseteq> {build_cmd_intel_qsv ?video (out_qsv name) vw vh}"
      using encode_spawned_subset[OF hw] .
    have s2: "set (spawned evs2) \<subseteq> {build_cmd_cpu_master ?video (out_cpu name) vw vh}"
      using encode_spawned_subset[OF fb] .
    have "set (spawned evs) \<subseteq> set (spawned evs1) \<union> set (spawned evs2)"
      using assms(1) Inr p True hw fb
      by (auto simp: process_video_def Let_def spawned_append
          split: if_splits option.splits exn.splits)
    then show ?thesis using assms(2) s1 s2 True by blast
  next
    case False
    obtain r1 evs1 wa where sw: "encode_with_eta bi sys w (out_cpu name)
               (build_cmd_cpu_master ?video (out_cpu name) vw vh) d = (r1, evs1, wa)"
      by (cases "encode_with_eta bi sys w (out_cpu name)
               (build_cmd_cpu_master ?video (out_cpu name) vw vh) d") auto
    have s1: "set (spawned evs1) \<subseteq> {build_cmd_cpu_master ?video (out_cpu name) vw vh}"
      using encode_spawned_subset[OF sw] .
    have "set (spawned evs) \<subseteq> set (spawned evs1)"
      using assms(1) Inr p False sw
      by (auto simp: process_video_def Let_def spawned_append split: if_splits)
    then show ?thesis using assms(2) s1 by blast
  qed
qed

lemma batch_loop_spawned:
  assumes "batch_loop bi sys mode w names = (r, evs, w1)" "cmd \<in> set (spawned evs)"
  shows "\<exists>name vw vh.
           (mode = ''intel_qsv'' \<and>
              cmd = build_cmd_intel_qsv (path_join INPUT_DIR name) (out_qsv name) vw vh)
         \<or> cmd = build_cmd_cpu_master (path_join INPUT_DIR name) (out_cpu name) vw vh"
  using assms
proof (induction names arbitrary: w r evs w1)
  case Nil
  then show ?case by simp
next
  case (Cons name names)
  obtain r0 evs0 w0 where pv: "process_video bi sys mode w name = (r0, evs0, w0)"
    by (cases "process_video bi sys mode w name") auto
  show ?case
  proof (cases r0)
    case (Some e)
    then have "evs = evs0" using Cons.prems(1) pv by simp
    then show ?thesis using process_video_spawned[OF pv] Cons.prems(2) by blast
  next
    case None
    obtain r' evs' w' where bl: "batch_loop bi sys mode w0 names = (r', evs', w')"
      by (cases "batch_loop bi sys mode w0 names") auto
    have "evs = evs0 @ evs'" using Cons.prems(1) pv None bl by simp
    then have "cmd \<in> set (spawned evs0) \<or> cmd \<in> set (spawned evs')"
      using Cons.prems(2) by (simp add: spawned_append)
    then show ?thesis
    proof
      assume "cmd \<in> set (spawned evs0)"
      then show ?thesis using process_video_spawned[OF pv] by blast
    next
      assume "cmd \<in> set (spawned evs')"
      then show ?thesis using Cons.IH[OF bl] by blast
    qed
  qed
qed

lemma main_spawned:
  assumes "cmd \<in> set (spawned (fst (snd (main bi sys w))))"
  shows "\<exists>mode r evs w1.
           batch_loop bi sys mode w (videos_of (iterdir sys w)) = (r, evs, w1)
         \<and> cmd \<in> set (spawned evs)
         \<and> mode = (if intel_qsv_available sys w then ''intel_qsv'' else ''cpu_master'')"
proof -
  let ?mode = "if intel_qsv_available sys w then ''intel_qsv'' else ''cpu_master''"
  obtain r evs w1 where
    bl: "batch_loop bi sys ?mode w (videos_of (iterdir sys w)) = (r, evs, w1)"
    by (cases "batch_loop bi sys ?mode w (videos_of (iterdir sys w))") auto
  have "set (spawned (fst (snd (main bi sys w)))) \<subseteq> set (spawned evs)"
  proof (cases "ffmpeg_exists sys w \<and> input_dir_exists sys w \<and> videos_of (iterdir sys w) \<noteq> []")
    case True
    then show ?thesis using main_of_loop[of sys w bi r evs w1] bl
      by (auto simp: spawned_append spawned_queries)
  next
    case False
    then show ?thesis by (auto simp: main_def Let_def)
  qed
  then show ?thesis using assms bl by blast
qed


text \<open>In hardware mode the first command a file starts is the hardware command.\<close>

lemma process_video_hw_first:
  assumes "ffprobe_info bi (run_ffprobe sys w (path_join INPUT_DIR name)) = Inr (d, vw, vh, fps)"
    and "\<not> (vw \<ge> 3840 \<or> vh \<ge> 2160)"
    and "\<not> path_exists sys w (out_qsv name)"
    and "fmt_hms (Some d) = Inr s"
    and "process_video bi sys ''intel_qsv'' w name = (r, evs, w')"
  shows "\<exists>more. spawned evs =
           build_cmd_intel_qsv (path_join INPUT_DIR name) (out_qsv name) vw vh # more"
proof -
  let ?video = "path_join INPUT_DIR name"
  obtain r1 evs1 wa where hw: "encode_with_eta bi sys w (out_qsv name)
               (build_cmd_intel_qsv ?video (out_qsv name) vw vh) d = (r1, evs1, wa)"
    by (cases "encode_with_eta bi sys w (out_qsv name)
               (build_cmd_intel_qsv ?video (out_qsv name) vw vh) d") auto
  obtain r2 evs2 wb where fb: "encode_with_eta bi sys wa (out_cpu name)
               (build_cmd_cpu_master ?video (out_cpu name) vw vh) d = (r2, evs2, wb)"
    by (cases "encode_with_eta bi sys wa (out_cpu name)
               (build_cmd_cpu_master ?video (out_cpu name) vw vh) d") auto
  have s1: "spawned evs1 = [build_cmd_intel_qsv ?video (out_qsv name) vw vh]"
    using encode_with_eta_trace[OF hw] assms(4) by simp
  have "\<exists>tl. evs = [Run_ffprobe ?video, Print_encoding name vw vh ''intel_qsv''] @ evs1 @ tl"
    using assms(1,2,3,5) hw fb
    by (auto simp: process_video_def Let_def split: if_splits option.splits exn.splits)
  then show ?thesis using s1 by (auto simp: spawned_append)
qed

lemma batch_loop_first:
  assumes "process_video bi sys mode w name = (r0, evs0, w0)"
  shows "\<exists>more. fst (snd (batch_loop bi sys mode w (name # names))) = evs0 @ more"
  using assms by (cases r0) (auto split: prod.splits)

lemma g_str20: "str_int 20 = ''20''" by code_simp

lemma qsv_cmd_no_hevc:
  "''hevc_qsv'' \<notin> set ((build_cmd_intel_qsv i out vw vh)[7 := [], 20 := []])"
  by (simp add: build_cmd_intel_qsv_def Let_def scaler_for_source_def g_str20
      QSV_GLOBAL_QUALITY_def)


subsection \<open>Files settled under software-master\<close>






subsection \<open>Mode downgrade\<close>
















subsection \<open>The hardware encoder\<close>

text \<open>
  Claim C9.  Whatever the source and the paths, the hardware builder puts \<open>h264_qsv\<close>
  after \<open>-c:v\<close>, and \<open>hevc_qsv\<close> occurs nowhere among its arguments (the two paths set
  aside).  The builder does not see the capability query; in every run of \<open>main\<close>, on
  every machine, each command started has \<open>h264_qsv\<close> or \<open>libx265\<close> as its encoder,
  never \<open>hevc_qsv\<close>.
\<close>

theorem hardware_encoder_is_h264:
  "build_cmd_intel_qsv i out vw vh ! 10 = ''-c:v''
   \<and> build_cmd_intel_qsv i out vw vh ! 11 = ''h264_qsv''
   \<and> ''hevc_qsv'' \<notin> set ((build_cmd_intel_qsv i out vw vh)[7 := [], 20 := []])
   \<and> (\<forall>cmd \<in> set (spawned (fst (snd (main bi sys w)))).
         cmd ! 10 = ''-c:v'' \<and> (cmd ! 11 = ''h264_qsv'' \<or> cmd ! 11 = ''libx265''))"
proof (intro conjI ballI)
  show "build_cmd_intel_qsv i out vw vh ! 10 = ''-c:v''"
    and "build_cmd_intel_qsv i out vw vh ! 11 = ''h264_qsv''"
    using qsv_cmd_encoder by simp_all
  show "''hevc_qsv'' \<notin> set ((build_cmd_intel_qsv i out vw vh)[7 := [], 20 := []])"
    by (rule qsv_cmd_no_hevc)
next
  fix cmd assume c: "cmd \<in> set (spawned (fst (snd (main bi sys w))))"
  obtain mode r evs w1 where
    bl: "batch_loop bi sys mode w (videos_of (iterdir sys w)) = (r, evs, w1)"
    and m: "cmd \<in> set (spawned evs)"
    using main_spawned[OF c] by blast
  from batch_loop_spawned[OF bl m]
  show "cmd ! 10 = ''-c:v''" and "cmd ! 11 = ''h264_qsv'' \<or> cmd ! 11 = ''libx265''"
    using qsv_cmd_encoder cpu_cmd_encoder by auto
qed

lemma hevc_machine_ready:
  "ffmpeg_exists hevc_machine [] \<and> input_dir_exists hevc_machine []
   \<and> videos_of (iterdir hevc_machine []) = [''a.mp4'', ''b.mkv'']
   \<and> intel_qsv_available hevc_machine []
   \<and> encoders_stdout hevc_machine [] = Some hevc_listing"
  by (simp add: hevc_machine_def demo_sys_def ffmpeg_exists_def g_videos
      intel_qsv_available_def ffmpeg_has_encoder_def g_has_hevc)

lemma hevc_machine_first_command:
  "\<exists>more. spawned (fst (snd (main dec_builtins hevc_machine [])))
     = build_cmd_intel_qsv (path_join INPUT_DIR ''a.mp4'') (out_qsv ''a.mp4'') 1920 1080 # more"
proof -
  obtain r0 evs0 w0 where
    pv: "process_video dec_builtins hevc_machine ''intel_qsv'' [] ''a.mp4'' = (r0, evs0, w0)"
    by (cases "process_video dec_builtins hevc_machine ''intel_qsv'' [] ''a.mp4''") auto
  have a: "ffprobe_info dec_builtins (run_ffprobe hevc_machine [] (path_join INPUT_DIR ''a.mp4''))
             = Inr (Fin 120, 1920, 1080, Fin 30)"
    by (simp add: hevc_machine_def demo_sys_def g_probe)
  have b: "\<not> ((1920::int) \<ge> 3840 \<or> (1080::int) \<ge> 2160)" by simp
  have c: "\<not> path_exists hevc_machine [] (out_qsv ''a.mp4'')"
    by (simp add: hevc_machine_def demo_sys_def)
  obtain m0 where s0: "spawned evs0 =
       build_cmd_intel_qsv (path_join INPUT_DIR ''a.mp4'') (out_qsv ''a.mp4'') 1920 1080 # m0"
    using process_video_hw_first[OF a b c g_hms120 pv] by blast
  obtain r evs w1 where
    bl: "batch_loop dec_builtins hevc_machine ''intel_qsv'' [] [''a.mp4'', ''b.mkv'']
           = (r, evs, w1)"
    by (cases "batch_loop dec_builtins hevc_machine ''intel_qsv'' [] [''a.mp4'', ''b.mkv'']") auto
  obtain m1 where e: "evs = evs0 @ m1"
    using batch_loop_first[OF pv, of "[''b.mkv'']"] bl by auto
  have "main dec_builtins hevc_machine [] =
          (r, qsv_queries hevc_machine [] @ [] @ evs
              @ (if r = None then [Print_batch_complete] else []), w1)"
    using main_of_loop[of hevc_machine "[]" dec_builtins r evs w1] hevc_machine_ready bl
    by simp
  then show ?thesis
    using s0 e by (auto simp: spawned_append spawned_queries)
qed

text \<open>
  Claim C9 on a machine whose encoder listing names \<open>hevc_qsv\<close>: the detector is true,
  and the first command started still encodes with \<open>h264_qsv\<close>.
\<close>

theorem hardware_encoder_is_h264_witness:
  "intel_qsv_available hevc_machine []
   \<and> encoders_stdout hevc_machine [] = Some hevc_listing
   \<and> str_contains ''hevc_qsv'' hevc_listing
   \<and> hd (spawned (fst (snd (main dec_builtins hevc_machine []))))
        \<in> set (spawned (fst (snd (main dec_builtins hevc_machine []))))
   \<and> hd (spawned (fst (snd (main dec_builtins hevc_machine [])))) ! 10 = ''-c:v''
   \<and> hd (spawned (fst (snd (main dec_builtins hevc_machine [])))) ! 11 = ''h264_qsv''"
proof -
  let ?cmds = "spawned (fst (snd (main dec_builtins hevc_machine [])))"
  obtain more where
    s: "?cmds = build_cmd_intel_qsv (path_join INPUT_DIR ''a.mp4'') (out_qsv ''a.mp4'')
                  1920 1080 # more"
    using hevc_machine_first_command by blast
  have mem: "hd ?cmds \<in> set ?cmds" using s by simp
  have "hd ?cmds ! 10 = ''-c:v''"
    using hardware_encoder_is_h264[of _ _ _ _ dec_builtins hevc_machine "[]"] mem by blast
  moreover have "hd ?cmds ! 11 = ''h264_qsv''" using s qsv_cmd_encoder by simp
  ultimately show ?thesis using mem hevc_machine_ready g_has_hevc by simp
qed

end
